theory Spec2Isabelle
  imports Complex_Main
begin

section \<open>Time-varying planners of meta\_planner: a shallow embedding\<close>

text \<open>
  The embedding follows \<^verbatim>\<open>time_varying_a_star.cpp\<close> and
  \<^verbatim>\<open>time_varying_rrt.cpp\<close>. A C++ \<^verbatim>\<open>double\<close> is the real number it
  denotes (no NaN); the one place where the source produces the IEEE infinity on
  purpose, the null-parent branch of \<^verbatim>\<open>ComputeCostToCome\<close>, has a value of its
  own. In \<^verbatim>\<open>CollisionCheck\<close>, where the number of iterations of the loop depends on
  how the sums of doubles are rounded, the arithmetic is that of the machine, which the
  planner carries as a parameter together with Eigen's \<^verbatim>\<open>norm()\<close> and
  \<^verbatim>\<open>isApprox()\<close> (the latter also where \<^verbatim>\<open>Plan\<close> calls it); elsewhere the
  arithmetic is that of the reals. A loop of the source whose exit depends on its data
  takes a bound on the number of its iterations (fuel) and says so when the bound is
  reached before the loop has ended.
\<close>

subsection \<open>Eigen vectors\<close>

type_synonym Vector3d = "real \<times> real \<times> real"

definition vadd :: "Vector3d \<Rightarrow> Vector3d \<Rightarrow> Vector3d" where
  "vadd a b = (case a of (a0, a1, a2) \<Rightarrow> case b of (b0, b1, b2) \<Rightarrow> (a0 + b0, a1 + b1, a2 + b2))"

definition vsub :: "Vector3d \<Rightarrow> Vector3d \<Rightarrow> Vector3d" where
  "vsub a b = (case a of (a0, a1, a2) \<Rightarrow> case b of (b0, b1, b2) \<Rightarrow> (a0 - b0, a1 - b1, a2 - b2))"

definition smult :: "real \<Rightarrow> Vector3d \<Rightarrow> Vector3d" where
  "smult c a = (case a of (a0, a1, a2) \<Rightarrow> (c * a0, c * a1, c * a2))"

definition sdiv :: "Vector3d \<Rightarrow> real \<Rightarrow> Vector3d" where
  "sdiv a c = (case a of (a0, a1, a2) \<Rightarrow> (a0 / c, a1 / c, a2 / c))"

definition Zero :: Vector3d where
  "Zero = (0, 0, 0)"

definition squaredNorm :: "Vector3d \<Rightarrow> real" where
  "squaredNorm a = (case a of (a0, a1, a2) \<Rightarrow> a0 * a0 + a1 * a1 + a2 * a2)"

definition vnorm :: "Vector3d \<Rightarrow> real" where
  "vnorm a = sqrt (squaredNorm a)"

text \<open>
  Eigen's fuzzy comparison \<^verbatim>\<open>a.isApprox(b, prec)\<close> in the arithmetic of the reals:
  the distance of the two vectors is at most \<open>prec\<close> times the smaller of their norms,
  compared on the squares.
\<close>

definition isApprox :: "Vector3d \<Rightarrow> Vector3d \<Rightarrow> real \<Rightarrow> bool" where
  "isApprox a b prec =
     (squaredNorm (vsub a b) \<le> prec * prec * min (squaredNorm a) (squaredNorm b))"

definition kEpsilon :: real where
  "kEpsilon = 1 / 100000000"

subsection \<open>The planner object and its collaborators\<close>

text \<open>
  The members of a planner that the two source files read. The environment
  (\<^verbatim>\<open>space_\<close>), the dynamics and the wall clock are outside the repository's
  sources: they are fields here. \<open>space_IsValid\<close> is the five-argument
  \<^verbatim>\<open>ProbabilisticBox::IsValid\<close>, returning its result together with the
  probability it writes through \<^verbatim>\<open>collision_prob\<close>; \<open>space_IsValid3\<close> is the
  call without a time that the RRT makes; \<open>now\<close> lists the readings of
  \<^verbatim>\<open>ros::Time::now()\<close> in the order in which a call of \<^verbatim>\<open>Plan\<close> takes them;
  \<open>space_Sample\<close> lists the points that \<^verbatim>\<open>Sample()\<close> draws;
  \<open>initial_collision_prob\<close> is the value of \<^verbatim>\<open>collision_prob_\<close> in a node
  that \<^verbatim>\<open>Node::Create\<close> has just returned (the header that declares the
  node is not among the sources, and the specification does not give the value).
  \<open>double_add\<close>, \<open>double_sub\<close>, \<open>double_mul\<close> and \<open>double_div\<close> are the four
  operations of the machine on doubles, each with its rounding, and \<open>eigen_norm\<close> and
  \<open>eigen_isApprox\<close> are Eigen's \<^verbatim>\<open>norm()\<close> and \<^verbatim>\<open>isApprox()\<close> on vectors of
  doubles.
\<close>

record planner =
  incoming_value :: nat
  outgoing_value :: nat
  space_IsValid :: "Vector3d \<Rightarrow> nat \<Rightarrow> nat \<Rightarrow> real \<Rightarrow> bool \<times> real"
  space_IsValid3 :: "Vector3d \<Rightarrow> nat \<Rightarrow> nat \<Rightarrow> bool"
  space_Sample :: "nat \<Rightarrow> Vector3d"
  BestPossibleTime :: "Vector3d \<Rightarrow> Vector3d \<Rightarrow> real"
  LiftGeometricTrajectory :: "Vector3d list \<Rightarrow> real list \<Rightarrow> real list list"
  grid_resolution :: real
  collision_check_resolution :: real
  now :: "nat \<Rightarrow> real"
  initial_collision_prob :: real
  double_add :: "real \<Rightarrow> real \<Rightarrow> real"
  double_sub :: "real \<Rightarrow> real \<Rightarrow> real"
  double_mul :: "real \<Rightarrow> real \<Rightarrow> real"
  double_div :: "real \<Rightarrow> real \<Rightarrow> real"
  eigen_norm :: "Vector3d \<Rightarrow> real"
  eigen_isApprox :: "Vector3d \<Rightarrow> Vector3d \<Rightarrow> real \<Rightarrow> bool"

text \<open>The operations of Eigen on vectors of doubles, component by component.\<close>

definition vadd_double :: "planner \<Rightarrow> Vector3d \<Rightarrow> Vector3d \<Rightarrow> Vector3d" where
  "vadd_double P a b =
     (case a of (a0, a1, a2) \<Rightarrow> case b of (b0, b1, b2) \<Rightarrow>
        (double_add P a0 b0, double_add P a1 b1, double_add P a2 b2))"

definition vsub_double :: "planner \<Rightarrow> Vector3d \<Rightarrow> Vector3d \<Rightarrow> Vector3d" where
  "vsub_double P a b =
     (case a of (a0, a1, a2) \<Rightarrow> case b of (b0, b1, b2) \<Rightarrow>
        (double_sub P a0 b0, double_sub P a1 b1, double_sub P a2 b2))"

definition smult_double :: "planner \<Rightarrow> real \<Rightarrow> Vector3d \<Rightarrow> Vector3d" where
  "smult_double P c a =
     (case a of (a0, a1, a2) \<Rightarrow> (double_mul P c a0, double_mul P c a1, double_mul P c a2))"

definition sdiv_double :: "planner \<Rightarrow> Vector3d \<Rightarrow> real \<Rightarrow> Vector3d" where
  "sdiv_double P a c =
     (case a of (a0, a1, a2) \<Rightarrow> (double_div P a0 c, double_div P a1 c, double_div P a2 c))"

text \<open>The doubles that the literals \<^verbatim>\<open>0.1\<close> and \<^verbatim>\<open>1e-8\<close> denote.\<close>

definition double_0_1 :: real where
  "double_0_1 = 3602879701896397 / 36028797018963968"

definition double_1e_8 :: real where
  "double_1e_8 = 3022314549036573 / 302231454903657293676544"

subsection \<open>\<^verbatim>\<open>TimeVaryingAStar::CollisionCheck\<close>\<close>

text \<open>
  One oracle query, as the walk records it: the point and the time asked about.
\<close>

type_synonym query = "Vector3d \<times> real"

text \<open>
  The \<^verbatim>\<open>for\<close> loop of \<^verbatim>\<open>CollisionCheck\<close>. The state of the loop is the
  query point, the loop variable \<open>time\<close>, the running \<open>max_collision_prob\<close> and the
  queries made so far. The result is \<open>Some False\<close> for the early \<^verbatim>\<open>return false\<close>,
  \<open>Some True\<close> for the \<^verbatim>\<open>return true\<close> after the loop, and \<open>None\<close> when the
  loop is still running after \<open>fuel\<close> iterations.
\<close>

fun walk_segment ::
  "planner \<Rightarrow> Vector3d \<Rightarrow> real \<Rightarrow> real \<Rightarrow> nat \<Rightarrow> Vector3d \<Rightarrow> real \<Rightarrow> real \<Rightarrow> query list
    \<Rightarrow> bool option \<times> real \<times> query list" where
  "walk_segment P direction dt stop_time 0 query time max_collision_prob asked =
     (if time < stop_time then (None, max_collision_prob, asked)
      else (Some True, max_collision_prob, asked))"
| "walk_segment P direction dt stop_time (Suc fuel) query time max_collision_prob asked =
     (if time < stop_time then
        (case space_IsValid P query (incoming_value P) (outgoing_value P) time of
           (valid_pt, collision_prob) \<Rightarrow>
             let max_collision_prob' =
                   (if collision_prob > max_collision_prob then collision_prob
                    else max_collision_prob);
                 asked' = asked @ [(query, time)]
             in if \<not> valid_pt then (Some False, max_collision_prob', asked')
                else walk_segment P direction dt stop_time fuel
                       (vadd_double P query
                          (smult_double P (collision_check_resolution P) direction))
                       (double_add P time dt) max_collision_prob' asked')
      else (Some True, max_collision_prob, asked))"

definition segment_direction :: "planner \<Rightarrow> Vector3d \<Rightarrow> Vector3d \<Rightarrow> Vector3d" where
  "segment_direction P start stop =
     (let same_pt = eigen_isApprox P start stop double_1e_8
      in if same_pt then Zero
         else sdiv_double P (vsub_double P stop start) (eigen_norm P (vsub_double P stop start)))"

definition segment_dt :: "planner \<Rightarrow> Vector3d \<Rightarrow> Vector3d \<Rightarrow> real \<Rightarrow> real \<Rightarrow> real" where
  "segment_dt P start stop start_time stop_time =
     (let same_pt = eigen_isApprox P start stop double_1e_8
      in if same_pt then double_mul P (double_sub P stop_time start_time) double_0_1
         else double_div P
                (double_mul P (double_sub P stop_time start_time) (collision_check_resolution P))
                (eigen_norm P (vsub_double P stop start)))"

definition CollisionCheck ::
  "planner \<Rightarrow> nat \<Rightarrow> Vector3d \<Rightarrow> Vector3d \<Rightarrow> real \<Rightarrow> real \<Rightarrow> real
    \<Rightarrow> bool option \<times> real \<times> query list" where
  "CollisionCheck P fuel start stop start_time stop_time max_collision_prob =
     walk_segment P (segment_direction P start stop)
       (segment_dt P start stop start_time stop_time) stop_time fuel start start_time
       max_collision_prob []"

text \<open>The probability and the verdict that the oracle gives for a recorded query.\<close>

definition prob_of :: "planner \<Rightarrow> query \<Rightarrow> real" where
  "prob_of P q = snd (space_IsValid P (fst q) (incoming_value P) (outgoing_value P) (snd q))"

definition valid_of :: "planner \<Rightarrow> query \<Rightarrow> bool" where
  "valid_of P q = fst (space_IsValid P (fst q) (incoming_value P) (outgoing_value P) (snd q))"

text \<open>The running maximum that the loop keeps: one comparison per sample, in order.\<close>

fun running_max :: "real \<Rightarrow> real list \<Rightarrow> real" where
  "running_max m [] = m"
| "running_max m (p # ps) = running_max (if p > m then p else m) ps"

text \<open>
  The \<open>k\<close>-th sample of the walk: the point and the time after \<open>k\<close> steps, each step
  made with the machine's operations as the loop makes it.
\<close>

fun sample_at :: "planner \<Rightarrow> Vector3d \<Rightarrow> real \<Rightarrow> Vector3d \<Rightarrow> real \<Rightarrow> nat \<Rightarrow> query" where
  "sample_at P direction dt query time 0 = (query, time)"
| "sample_at P direction dt query time (Suc k) =
     sample_at P direction dt
       (vadd_double P query (smult_double P (collision_check_resolution P) direction))
       (double_add P time dt) k"

text \<open>The samples of a call of \<^verbatim>\<open>CollisionCheck\<close>, numbered from 0.\<close>

definition sample :: "planner \<Rightarrow> Vector3d \<Rightarrow> Vector3d \<Rightarrow> real \<Rightarrow> real \<Rightarrow> nat \<Rightarrow> query" where
  "sample P start stop start_time stop_time k =
     sample_at P (segment_direction P start stop)
       (segment_dt P start stop start_time stop_time) start start_time k"

subsection \<open>Nodes of the A* search\<close>

text \<open>
  A \<^verbatim>\<open>double\<close> that may be the infinity which \<^verbatim>\<open>ComputeCostToCome\<close>
  returns for a null parent.
\<close>

datatype xdouble = Finite real | Infinity

fun xadd :: "xdouble \<Rightarrow> xdouble \<Rightarrow> xdouble" where
  "xadd (Finite a) (Finite b) = Finite (a + b)"
| "xadd _ _ = Infinity"

fun xless :: "xdouble \<Rightarrow> xdouble \<Rightarrow> bool" where
  "xless (Finite a) (Finite b) = (a < b)"
| "xless (Finite a) Infinity = True"
| "xless Infinity _ = False"

text \<open>
  A node lives in the store of the search (a list of nodes, the address of a node being
  its index), and \<^verbatim>\<open>parent_\<close> is the address of the parent or \<open>None\<close> for
  \<^verbatim>\<open>nullptr\<close>.
\<close>

record Node =
  node_point :: Vector3d
  node_parent :: "nat option"
  node_time :: real
  node_cost_to_come :: xdouble
  node_heuristic :: real
  node_priority :: xdouble
  node_collision_prob :: real

text \<open>
  Modelled from the spec: \<^verbatim>\<open>Node::Create\<close> and \<^verbatim>\<open>Node::NodeComparitor\<close> are
  declared in \<^verbatim>\<open>time_varying_a_star.h\<close>, which is not among the sources. The
  specification gives \<open>priority = cost_to_come + heuristic\<close> and an open set ordered
  by priority. \<open>Node_Create\<close> returns the address of the new node and the store that
  holds it.
\<close>

definition Node_Create ::
  "planner \<Rightarrow> Node list \<Rightarrow> Vector3d \<Rightarrow> nat option \<Rightarrow> real \<Rightarrow> xdouble \<Rightarrow> real
    \<Rightarrow> nat \<times> Node list" where
  "Node_Create P store point parent time cost_to_come heuristic =
     (length store,
      store @ [\<lparr>node_point = point, node_parent = parent, node_time = time, node_cost_to_come = cost_to_come,
                node_heuristic = heuristic, node_priority = xadd cost_to_come (Finite heuristic),
                node_collision_prob = initial_collision_prob P\<rparr>])"

definition NodeComparitor :: "Node \<Rightarrow> Node \<Rightarrow> bool" where
  "NodeComparitor node1 node2 = xless (node_priority node1) (node_priority node2)"

subsection \<open>The open set: a \<^verbatim>\<open>std::multiset\<close> of node pointers\<close>

text \<open>
  The multiset is the list of its elements in iteration order. \<open>multiset_insert\<close> puts
  the new element at the upper bound of the elements equivalent to it, \<open>multiset_find\<close>
  returns the first element equivalent to the key under the comparator (neither is less
  than the other), as \<^verbatim>\<open>std::multiset::find\<close> does, and erasing the iterator that
  \<open>multiset_find\<close> returned removes that element.
\<close>

definition comp_at :: "Node list \<Rightarrow> nat \<Rightarrow> nat \<Rightarrow> bool" where
  "comp_at store a b = NodeComparitor (store ! a) (store ! b)"

definition multiset_insert :: "Node list \<Rightarrow> nat \<Rightarrow> nat list \<Rightarrow> nat list" where
  "multiset_insert store x xs =
     takeWhile (\<lambda>e. \<not> comp_at store x e) xs @ x # dropWhile (\<lambda>e. \<not> comp_at store x e) xs"

definition multiset_find :: "Node list \<Rightarrow> nat \<Rightarrow> nat list \<Rightarrow> nat option" where
  "multiset_find store x xs = find (\<lambda>e. \<not> comp_at store x e \<and> \<not> comp_at store e x) xs"

definition multiset_erase :: "nat \<Rightarrow> nat list \<Rightarrow> nat list" where
  "multiset_erase m xs = remove1 m xs"

subsection \<open>\<^verbatim>\<open>ComputeCostToCome\<close>, \<^verbatim>\<open>ComputeHeuristic\<close>, \<^verbatim>\<open>Neighbors\<close>\<close>

definition ComputeCostToCome :: "planner \<Rightarrow> Node option \<Rightarrow> Vector3d \<Rightarrow> real \<Rightarrow> xdouble" where
  "ComputeCostToCome P parent point dt =
     (case parent of
        None \<Rightarrow> Infinity
      | Some parent_node \<Rightarrow>
          let dt' = (if dt < 0 then BestPossibleTime P (node_point parent_node) point else dt)
          in xadd (node_cost_to_come parent_node)
               (Finite (vnorm (vsub (node_point parent_node) point))))"

definition ComputeHeuristic :: "planner \<Rightarrow> Vector3d \<Rightarrow> Vector3d \<Rightarrow> real" where
  "ComputeHeuristic P point stop = BestPossibleTime P point stop"

text \<open>
  One of the three nested \<^verbatim>\<open>for\<close> loops of \<^verbatim>\<open>Neighbors\<close>: the values that the
  loop variable takes, from \<open>x\<close> in steps of the grid resolution while it is below
  \<open>bound\<close>; \<open>None\<close> when the loop is still running after \<open>fuel\<close> iterations.
\<close>

fun axis_values :: "nat \<Rightarrow> real \<Rightarrow> real \<Rightarrow> real \<Rightarrow> real list option" where
  "axis_values 0 x bound step = (if x < bound then None else Some [])"
| "axis_values (Suc fuel) x bound step =
     (if x < bound then map_option ((#) x) (axis_values fuel (x + step) bound step)
      else Some [])"

text \<open>Running a loop body that may not return for each element, in order.\<close>

fun for_each :: "('a \<Rightarrow> 'b list option) \<Rightarrow> 'a list \<Rightarrow> 'b list option" where
  "for_each body [] = Some []"
| "for_each body (x # xs) =
     (case body x of
        None \<Rightarrow> None
      | Some ys \<Rightarrow> map_option ((@) ys) (for_each body xs))"

definition Neighbors :: "planner \<Rightarrow> nat \<Rightarrow> Vector3d \<Rightarrow> Vector3d list option" where
  "Neighbors P fuel point =
     (case point of (p0, p1, p2) \<Rightarrow>
        let r = grid_resolution P in
        (case axis_values fuel (p0 - r) (p0 + r + kEpsilon) r of
           None \<Rightarrow> None
         | Some xs \<Rightarrow>
             for_each (\<lambda>x.
               case axis_values fuel (p1 - r) (p1 + r + kEpsilon) r of
                 None \<Rightarrow> None
               | Some ys \<Rightarrow>
                   for_each (\<lambda>y.
                     case axis_values fuel (p2 - r) (p2 + r + kEpsilon) r of
                       None \<Rightarrow> None
                     | Some zs \<Rightarrow> Some (map (\<lambda>z. (x, y, z)) zs)) ys) xs))"

subsection \<open>\<^verbatim>\<open>GenerateTrajectory\<close>\<close>

text \<open>What \<^verbatim>\<open>Trajectory::Create(times, states, values, values)\<close> is given.\<close>

record Trajectory =
  traj_times :: "real list"
  traj_states :: "real list list"
  traj_incoming_values :: "nat list"
  traj_outgoing_values :: "nat list"

text \<open>
  The loop \<^verbatim>\<open>for (n = node; n != nullptr; n = n->parent_)\<close>: the positions and the
  times in the order in which they are pushed; \<open>None\<close> when the loop is still running
  after \<open>fuel\<close> iterations.
\<close>

fun walk_back :: "nat \<Rightarrow> Node list \<Rightarrow> nat option \<Rightarrow> (Vector3d list \<times> real list) option" where
  "walk_back fuel store None = Some ([], [])"
| "walk_back 0 store (Some n) = None"
| "walk_back (Suc fuel) store (Some n) =
     (case walk_back fuel store (node_parent (store ! n)) of
        None \<Rightarrow> None
      | Some (positions, times') \<Rightarrow>
          Some (node_point (store ! n) # positions, node_time (store ! n) # times'))"

text \<open>The two vectors after \<^verbatim>\<open>std::reverse\<close>.\<close>

definition waypoints :: "nat \<Rightarrow> Node list \<Rightarrow> nat \<Rightarrow> (Vector3d list \<times> real list) option" where
  "waypoints fuel store node =
     (case walk_back fuel store (Some node) of
        None \<Rightarrow> None
      | Some (positions, times') \<Rightarrow> Some (rev positions, rev times'))"

definition GenerateTrajectory :: "planner \<Rightarrow> nat \<Rightarrow> Node list \<Rightarrow> nat \<Rightarrow> Trajectory option" where
  "GenerateTrajectory P fuel store node =
     (case waypoints fuel store node of
        None \<Rightarrow> None
      | Some (positions, times') \<Rightarrow>
          let states = LiftGeometricTrajectory P positions times';
              values = replicate (length states) (incoming_value P)
          in Some \<lparr>traj_times = times', traj_states = states,
                   traj_incoming_values = values, traj_outgoing_values = values\<rparr>)"

subsection \<open>\<^verbatim>\<open>TimeVaryingAStar::Plan\<close>\<close>

text \<open>
  The state of a call of \<^verbatim>\<open>Plan\<close>: the store of the nodes created so far, the
  open multiset and the closed set (pointers, that is addresses), the queries the
  collision oracle has received, and the number of readings taken from the clock.
  The closed set is a \<^verbatim>\<open>std::unordered_set<Node::Ptr, NodeHasher>\<close>: no equality
  is given to it, so its elements are compared as pointers.
\<close>

record search =
  nodes :: "Node list"
  open_set :: "nat list"
  closed_set :: "nat list"
  queries :: "query list"
  clock_reads :: nat

text \<open>The two places at which \<^verbatim>\<open>Plan\<close> returns \<^verbatim>\<open>nullptr\<close>.\<close>

datatype no_trajectory = BudgetExceeded | OpenListEmpty

definition kStayPutTime :: real where
  "kStayPutTime = 1"

text \<open>
  The last statement of the loop over the neighbours: the candidate, already found free
  of collision, against the open set.
\<close>

definition update_open :: "Node list \<Rightarrow> nat \<Rightarrow> nat list \<Rightarrow> nat list" where
  "update_open store neighbor_node opn =
     (case multiset_find store neighbor_node opn of
        Some match \<Rightarrow>
          if xless (node_priority (store ! neighbor_node)) (node_priority (store ! match))
          then multiset_insert store neighbor_node (multiset_erase match opn)
          else opn
      | None \<Rightarrow> multiset_insert store neighbor_node opn)"

text \<open>
  The body of the loop over the neighbours, for the node at address \<open>next\<close> and one
  neighbour; \<open>None\<close> when the collision check is still running after \<open>fuel\<close>
  iterations. \<^verbatim>\<open>CollisionCheck\<close> is given \<^verbatim>\<open>neighbor_node->collision_prob_\<close> by
  reference: what it leaves there is written to the node in the store.
\<close>

definition expand_neighbor ::
  "planner \<Rightarrow> nat \<Rightarrow> Vector3d \<Rightarrow> nat \<Rightarrow> search \<Rightarrow> Vector3d \<Rightarrow> search option" where
  "expand_neighbor P fuel stop next s neighbor =
     (let next_node = nodes s ! next;
          best_neigh_time =
            (if eigen_isApprox P neighbor (node_point next_node) double_1e_8 then kStayPutTime
             else BestPossibleTime P (node_point next_node) neighbor);
          neighbor_time = node_time next_node + best_neigh_time;
          neighbor_cost = ComputeCostToCome P (Some next_node) neighbor best_neigh_time;
          neighbor_heuristic = ComputeHeuristic P neighbor stop
      in case Node_Create P (nodes s) neighbor (Some next) neighbor_time neighbor_cost
                neighbor_heuristic of
           (neighbor_node, store) \<Rightarrow>
             if neighbor_node \<in> set (closed_set s) then Some (s\<lparr>nodes := store\<rparr>)
             else
               (case CollisionCheck P fuel (node_point next_node) neighbor (node_time next_node)
                       neighbor_time (node_collision_prob (store ! neighbor_node)) of
                  (free, max_collision_prob, asked) \<Rightarrow>
                    let store' = store[neighbor_node :=
                                   (store ! neighbor_node)\<lparr>node_collision_prob := max_collision_prob\<rparr>];
                        s' = s\<lparr>nodes := store', queries := queries s @ asked\<rparr>
                    in (case free of
                          None \<Rightarrow> None
                        | Some False \<Rightarrow> Some s'
                        | Some True \<Rightarrow>
                            Some (s'\<lparr>open_set := update_open store' neighbor_node (open_set s')\<rparr>))))"

fun expand_all ::
  "planner \<Rightarrow> nat \<Rightarrow> Vector3d \<Rightarrow> nat \<Rightarrow> search \<Rightarrow> Vector3d list \<Rightarrow> search option" where
  "expand_all P fuel stop next s [] = Some s"
| "expand_all P fuel stop next s (neighbor # rest) =
     (case expand_neighbor P fuel stop next s neighbor of
        None \<Rightarrow> None
      | Some s' \<Rightarrow> expand_all P fuel stop next s' rest)"

text \<open>The test \<^verbatim>\<open>Check if this guy is the goal\<close>.\<close>

definition is_goal :: "planner \<Rightarrow> Vector3d \<Rightarrow> Vector3d \<Rightarrow> bool" where
  "is_goal P point stop =
     (case point of (p0, p1, p2) \<Rightarrow> case stop of (s0, s1, s2) \<Rightarrow>
        \<bar>p0 - s0\<bar> < grid_resolution P / 2 \<and>
        \<bar>p1 - s1\<bar> < grid_resolution P / 2 \<and>
        \<bar>p2 - s2\<bar> < grid_resolution P / 2)"

text \<open>
  The goal branch: the terminus is created at \<open>stop\<close>, under the parent of the popped
  node, or under the popped node when it has none.
\<close>

definition connect_goal :: "planner \<Rightarrow> Node list \<Rightarrow> nat \<Rightarrow> Vector3d \<Rightarrow> nat \<times> Node list" where
  "connect_goal P store next stop =
     (let parent_node = (case node_parent (store ! next) of None \<Rightarrow> next | Some p \<Rightarrow> p);
          best_time = BestPossibleTime P (node_point (store ! parent_node)) stop;
          terminus_time = node_time (store ! parent_node) + best_time;
          terminus_cost = ComputeCostToCome P (Some (store ! parent_node)) stop best_time;
          terminus_heuristic = 0
      in Node_Create P store stop (Some parent_node) terminus_time terminus_cost
           terminus_heuristic)"

text \<open>
  The main loop. \<open>fuel\<close> bounds the inner loops and \<open>n\<close> the iterations of the main
  loop; the result is \<open>None\<close> when a loop is still running at its bound, \<open>Some (Inl r)\<close>
  for \<^verbatim>\<open>return nullptr\<close> at the place \<open>r\<close>, and \<open>Some (Inr t)\<close> for a trajectory.
\<close>

fun plan_loop ::
  "planner \<Rightarrow> nat \<Rightarrow> Vector3d \<Rightarrow> real \<Rightarrow> real \<Rightarrow> nat \<Rightarrow> search
    \<Rightarrow> (no_trajectory + Trajectory) option \<times> search" where
  "plan_loop P fuel stop budget plan_start_time 0 s = (None, s)"
| "plan_loop P fuel stop budget plan_start_time (Suc n) s =
     (let s0 = s\<lparr>clock_reads := Suc (clock_reads s)\<rparr> in
      if now P (clock_reads s) - plan_start_time > budget then (Some (Inl BudgetExceeded), s0)
      else
        (case open_set s0 of
           [] \<Rightarrow> (Some (Inl OpenListEmpty), s0)
         | next # rest \<Rightarrow>
             let s1 = s0\<lparr>open_set := rest\<rparr> in
             if is_goal P (node_point (nodes s1 ! next)) stop then
               (case connect_goal P (nodes s1) next stop of
                  (terminus, store) \<Rightarrow>
                    (map_option Inr (GenerateTrajectory P fuel store terminus),
                     s1\<lparr>nodes := store\<rparr>))
             else
               let s2 = s1\<lparr>closed_set := next # closed_set s1\<rparr> in
               (case Neighbors P fuel (node_point (nodes s2 ! next)) of
                  None \<Rightarrow> (None, s2)
                | Some neighbors \<Rightarrow>
                    (case expand_all P fuel stop next s2 neighbors of
                       None \<Rightarrow> (None, s2)
                     | Some s3 \<Rightarrow> plan_loop P fuel stop budget plan_start_time n s3))))"

definition initial_search :: "planner \<Rightarrow> Vector3d \<Rightarrow> Vector3d \<Rightarrow> real \<Rightarrow> search" where
  "initial_search P start stop start_time =
     (let start_cost = Finite 0;
          start_heuristic = ComputeHeuristic P start stop
      in case Node_Create P [] start None start_time start_cost start_heuristic of
           (start_node, store) \<Rightarrow>
             \<lparr>nodes = store, open_set = multiset_insert store start_node [], closed_set = [],
              queries = [], clock_reads = 1\<rparr>)"

definition Plan ::
  "planner \<Rightarrow> nat \<Rightarrow> Vector3d \<Rightarrow> Vector3d \<Rightarrow> real \<Rightarrow> real
    \<Rightarrow> (no_trajectory + Trajectory) option \<times> search" where
  "Plan P fuel start stop start_time budget =
     (let plan_start_time = now P 0
      in plan_loop P fuel stop budget plan_start_time fuel
           (initial_search P start stop start_time))"

subsection \<open>\<^verbatim>\<open>TimeVaryingRrt\<close>\<close>

text \<open>
  A node of the tree, as \<^verbatim>\<open>Node::Create(point, parent, time)\<close> makes it. The nodes
  are constant once made (\<^verbatim>\<open>Node::ConstPtr\<close>), so a node holds its parent.
\<close>

datatype rrt_node = RrtNode (rrt_point: Vector3d) (rrt_parent: "rrt_node option") (rrt_time: real)

text \<open>
  Modelled from the spec: the spatial index \<^verbatim>\<open>kdtree_\<close> is not among the sources.
  The specification gives \<open>Insert(node)\<close> and \<open>KNearest(point, k)\<close>, an ordered
  sequence of nodes, nearest first.
\<close>

definition KdTree_Insert :: "rrt_node list \<Rightarrow> rrt_node \<Rightarrow> rrt_node list" where
  "KdTree_Insert tree node = tree @ [node]"

definition KnnSearch :: "rrt_node list \<Rightarrow> Vector3d \<Rightarrow> nat \<Rightarrow> rrt_node list" where
  "KnnSearch tree query k =
     take k (sort_key (\<lambda>n. squaredNorm (vsub (rrt_point n) query)) tree)"

text \<open>
  The state of a call of \<^verbatim>\<open>TimeVaryingRrt::Plan\<close>: the tree, the number of points
  drawn from the environment and the number of readings taken from the clock.
\<close>

record rrt_search =
  kdtree :: "rrt_node list"
  samples_drawn :: nat
  rrt_clock_reads :: nat

text \<open>
  The places at which \<^verbatim>\<open>TimeVaryingRrt::Plan\<close> returns \<^verbatim>\<open>nullptr\<close>: after the
  warning about the start point, after the warning about the stop point, after the error
  about the number of neighbours, and after the loop.
\<close>

datatype rrt_no_trajectory = StartInvalid | StopInvalid | WrongNumberOfNeighbors | BudgetExpired

text \<open>
  \<^verbatim>\<open>TimeVaryingRrt::CollisionCheck\<close> as the source defines it, with three parameters
  (\<^verbatim>\<open>Plan\<close> passes the time of arrival as a fourth argument, which no parameter
  takes). In the loop of \<^verbatim>\<open>Plan\<close>, \<^verbatim>\<open>neigbors[0]\<close> is read as
  \<^verbatim>\<open>neighbors[0]\<close> and \<^verbatim>\<open>space_.Sample()\<close> as \<^verbatim>\<open>space_->Sample()\<close>; an
  empty result of the search for neighbours takes the return that the source has under
  \<^verbatim>\<open>ENABLE_DEBUG_MESSAGES\<close>.
\<close>

definition Rrt_CollisionCheck :: "Vector3d \<Rightarrow> Vector3d \<Rightarrow> real \<Rightarrow> bool" where
  "Rrt_CollisionCheck start stop start_time = False"

fun rrt_loop ::
  "planner \<Rightarrow> Vector3d \<Rightarrow> real \<Rightarrow> real \<Rightarrow> nat \<Rightarrow> rrt_search
    \<Rightarrow> (rrt_no_trajectory + Trajectory) option \<times> rrt_search" where
  "rrt_loop P stop budget begin 0 s = (None, s)"
| "rrt_loop P stop budget begin (Suc n) s =
     (let s0 = s\<lparr>rrt_clock_reads := Suc (rrt_clock_reads s)\<rparr> in
      if now P (rrt_clock_reads s) - begin < budget then
        let sample = space_Sample P (samples_drawn s0);
            s1 = s0\<lparr>samples_drawn := Suc (samples_drawn s0)\<rparr>;
            kNumNeigbhbors = 1;
            neighbors = KnnSearch (kdtree s1) sample kNumNeigbhbors
        in (case neighbors of
              [] \<Rightarrow> (Some (Inl WrongNumberOfNeighbors), s1)
            | neighbor # others \<Rightarrow>
                let sample_time =
                      rrt_time neighbor + BestPossibleTime P (rrt_point neighbor) sample
                in if \<not> Rrt_CollisionCheck (rrt_point neighbor) sample (rrt_time neighbor)
                   then rrt_loop P stop budget begin n s1
                   else
                     let sample_node = RrtNode sample (Some neighbor) sample_time;
                         s2 = s1\<lparr>kdtree := KdTree_Insert (kdtree s1) sample_node\<rparr>;
                         stop_time = sample_time + BestPossibleTime P sample stop
                     in if \<not> Rrt_CollisionCheck sample stop sample_time
                        then rrt_loop P stop budget begin n s2
                        else rrt_loop P stop budget begin n s2)
      else (Some (Inl BudgetExpired), s0))"

text \<open>
  \<open>tree\<close> is what the member \<^verbatim>\<open>kdtree_\<close> holds when \<^verbatim>\<open>Plan\<close> is called.
\<close>

definition Rrt_Plan ::
  "planner \<Rightarrow> nat \<Rightarrow> rrt_node list \<Rightarrow> Vector3d \<Rightarrow> Vector3d \<Rightarrow> real \<Rightarrow> real
    \<Rightarrow> (rrt_no_trajectory + Trajectory) option \<times> rrt_search" where
  "Rrt_Plan P fuel tree start stop start_time budget =
     (let s = \<lparr>kdtree = tree, samples_drawn = 0, rrt_clock_reads = 0\<rparr> in
      if \<not> space_IsValid3 P start (incoming_value P) (outgoing_value P)
      then (Some (Inl StartInvalid), s)
      else if \<not> space_IsValid3 P stop (incoming_value P) (outgoing_value P)
      then (Some (Inl StopInvalid), s)
      else
        let root = RrtNode start None start_time;
            s' = s\<lparr>kdtree := KdTree_Insert (kdtree s) root\<rparr>;
            begin = now P 0
        in rrt_loop P stop budget begin fuel (s'\<lparr>rrt_clock_reads := 1\<rparr>))"

subsection \<open>Parent chains\<close>

text \<open>
  The addresses of the nodes that the loop of \<^verbatim>\<open>GenerateTrajectory\<close> visits, in the
  order of the visit: the node, its parent, and so on, for at most \<open>fuel\<close> nodes.
\<close>

fun parent_chain :: "nat \<Rightarrow> Node list \<Rightarrow> nat option \<Rightarrow> nat list" where
  "parent_chain fuel store None = []"
| "parent_chain 0 store (Some n) = []"
| "parent_chain (Suc fuel) store (Some n) =
     n # parent_chain fuel store (node_parent (store ! n))"

text \<open>
  A store in which every parent was created before its child and is not later in time
  than its child.
\<close>

definition time_ordered :: "Node list \<Rightarrow> bool" where
  "time_ordered store =
     list_all (\<lambda>i. case node_parent (store ! i) of
                      None \<Rightarrow> True
                    | Some p \<Rightarrow> p < i \<and> node_time (store ! p) \<le> node_time (store ! i))
       [0..<length store]"

subsection \<open>A small planner for running the definitions\<close>

text \<open>
  An environment that is valid before the time \<open>1/2\<close> and reports the time asked about
  as the probability, a dynamics that takes two units of time between any two points, and
  a clock that advances by one unit at each reading. Its arithmetic has no rounding: the
  numbers in the runs below are small multiples of \<open>1/2\<close>, on which the operations of
  the doubles have none either.
\<close>

definition example_planner :: planner where
  "example_planner =
     \<lparr>incoming_value = 0, outgoing_value = 0,
      space_IsValid = (\<lambda>position incoming outgoing time. (time < 1 / 2, time)),
      space_IsValid3 = (\<lambda>position incoming outgoing. True),
      space_Sample = (\<lambda>k. (0, 0, 0)),
      BestPossibleTime = (\<lambda>a b. 2),
      LiftGeometricTrajectory = (\<lambda>positions times'. map (\<lambda>(x, y, z). [x, y, z]) positions),
      grid_resolution = 1, collision_check_resolution = 1 / 2,
      now = (\<lambda>k. real k), initial_collision_prob = 0,
      double_add = (+), double_sub = (-), double_mul = (*), double_div = (/),
      eigen_norm = vnorm, eigen_isApprox = isApprox\<rparr>"

text \<open>The same planner in an environment that is valid at every time.\<close>

definition free_planner :: planner where
  "free_planner =
     example_planner\<lparr>space_IsValid := (\<lambda>position incoming outgoing time. (True, time))\<rparr>"

text \<open>The same planner in an environment whose valid points have a first coordinate \<open>\<ge> 0\<close>.\<close>

definition walled_planner :: planner where
  "walled_planner =
     example_planner\<lparr>space_IsValid3 := (\<lambda>position incoming outgoing. 0 \<le> fst position)\<rparr>"

text \<open>The same planner with a clock that gives the same reading every time.\<close>

definition frozen_planner :: planner where
  "frozen_planner = example_planner\<lparr>now := (\<lambda>k. 0)\<rparr>"



text \<open>
  A store with two nodes at the same grid position: the first, reached at cost 3, and
  the second, reached at cost 1, both with heuristic 2.
\<close>

definition example_nodes :: "Node list" where
  "example_nodes =
     [\<lparr>node_point = (1, 1, 0), node_parent = None, node_time = 4,
       node_cost_to_come = Finite 3, node_heuristic = 2, node_priority = Finite 5,
       node_collision_prob = 0\<rparr>,
      \<lparr>node_point = (1, 1, 0), node_parent = None, node_time = 2,
       node_cost_to_come = Finite 1, node_heuristic = 2, node_priority = Finite 3,
       node_collision_prob = 0\<rparr>]"

section \<open>Properties\<close>

subsection \<open>Running the definitions\<close>

lemmas vector_defs = vadd_def vsub_def smult_def sdiv_def Zero_def squaredNorm_def vnorm_def
  isApprox_def kEpsilon_def vadd_double_def vsub_double_def smult_double_def sdiv_double_def
  double_0_1_def double_1e_8_def

lemmas example_defs = example_planner_def free_planner_def

lemma example_samples:
  "sample example_planner (0, 0, 0) (1, 0, 0) 0 1 0 = ((0, 0, 0), 0)"
  "sample example_planner (0, 0, 0) (1, 0, 0) 0 1 (Suc 0) = ((1 / 2, 0, 0), 1 / 2)"
  "sample free_planner (0, 0, 0) (1, 0, 0) 0 1 0 = ((0, 0, 0), 0)"
  "sample free_planner (0, 0, 0) (1, 0, 0) 0 1 (Suc 0) = ((1 / 2, 0, 0), 1 / 2)"
  "sample free_planner (0, 0, 0) (1, 0, 0) 0 1 (Suc (Suc 0)) = ((1, 0, 0), 1)"
  by (simp_all add: sample_def segment_direction_def segment_dt_def vector_defs example_defs)

lemma example_oracle:
  "valid_of example_planner (q, t) = (t < 1 / 2)"
  "prob_of example_planner (q, t) = t"
  "valid_of free_planner (q, t) = True"
  "prob_of free_planner (q, t) = t"
  by (simp_all add: valid_of_def prob_of_def example_defs)

lemma free_planner_check:
  "CollisionCheck free_planner 5 (0, 0, 0) (1, 0, 0) 0 1 0 =
     (Some True, 1 / 2, [((0, 0, 0), 0), ((1 / 2, 0, 0), 1 / 2)])"
  by (simp add: CollisionCheck_def segment_direction_def segment_dt_def vector_defs example_defs
      numeral_eq_Suc)

subsection \<open>The walk of \<^verbatim>\<open>CollisionCheck\<close>\<close>

text \<open>
  As long as the samples are valid and before the stop time, the loop goes on: after
  \<open>k\<close> such samples it is at the \<open>k\<close>-th sample, has asked about the samples before
  it, and holds their running maximum.
\<close>

lemma walk_segment_prefix:
  "(\<forall>j<k. snd (sample_at P d dt q t j) < st \<and> valid_of P (sample_at P d dt q t j))
   \<Longrightarrow> k \<le> fuel
   \<Longrightarrow> walk_segment P d dt st fuel q t mp asked =
       walk_segment P d dt st (fuel - k) (fst (sample_at P d dt q t k)) (snd (sample_at P d dt q t k))
         (running_max mp (map (\<lambda>j. prob_of P (sample_at P d dt q t j)) [0..<k]))
         (asked @ map (sample_at P d dt q t) [0..<k])"
proof (induction k arbitrary: fuel q t mp asked)
  case 0
  then show ?case by simp
next
  case (Suc k)
  from Suc.prems(2) obtain f where f: "fuel = Suc f" and kf: "k \<le> f"
    by (cases fuel) auto
  let ?q' = "vadd_double P q (smult_double P (collision_check_resolution P) d)"
  let ?t' = "double_add P t dt"
  obtain v p where vp: "space_IsValid P q (incoming_value P) (outgoing_value P) t = (v, p)"
    by (cases "space_IsValid P q (incoming_value P) (outgoing_value P) t")
  from Suc.prems(1) have h0: "t < st" "valid_of P (q, t)"
    by (auto dest: spec [of _ 0])
  from h0 vp have v: "v" by (simp add: valid_of_def)
  from vp have p: "prob_of P (q, t) = p" by (simp add: prob_of_def)
  have rest: "\<forall>j<k. snd (sample_at P d dt ?q' ?t' j) < st \<and> valid_of P (sample_at P d dt ?q' ?t' j)"
    using Suc.prems(1) by (auto dest: spec [of _ "Suc _"])
  have "walk_segment P d dt st fuel q t mp asked =
        walk_segment P d dt st f ?q' ?t' (if p > mp then p else mp) (asked @ [(q, t)])"
    using f h0 vp v by (simp add: Let_def)
  also have "\<dots> = walk_segment P d dt st (f - k) (fst (sample_at P d dt ?q' ?t' k))
         (snd (sample_at P d dt ?q' ?t' k))
         (running_max (if p > mp then p else mp)
            (map (\<lambda>j. prob_of P (sample_at P d dt ?q' ?t' j)) [0..<k]))
         ((asked @ [(q, t)]) @ map (sample_at P d dt ?q' ?t') [0..<k])"
    by (rule Suc.IH [OF rest kf])
  finally show ?case
    using f p by (simp add: map_upt_Suc del: upt_Suc)
qed

text \<open>Whatever the bound, the loop asks only about times before the stop time.\<close>

lemma walk_segment_times:
  "set (snd (snd (walk_segment P d dt st fuel q t mp asked))) \<subseteq> set asked \<union> {x. snd x < st}"
proof (induction fuel arbitrary: q t mp asked)
  case 0
  then show ?case by simp
next
  case (Suc fuel)
  show ?case
  proof (cases "t < st")
    case False
    then show ?thesis by simp
  next
    case True
    obtain v p where vp: "space_IsValid P q (incoming_value P) (outgoing_value P) t = (v, p)"
      by (cases "space_IsValid P q (incoming_value P) (outgoing_value P) t")
    show ?thesis
    proof (cases v)
      case False
      with True vp show ?thesis by (auto simp: Let_def)
    next
      case v: True
      have "set (snd (snd (walk_segment P d dt st fuel
                (vadd_double P q (smult_double P (collision_check_resolution P) d))
                (double_add P t dt)
                (if p > mp then p else mp) (asked @ [(q, t)]))))
            \<subseteq> set (asked @ [(q, t)]) \<union> {x. snd x < st}"
        by (rule Suc.IH)
      with True vp v show ?thesis by (auto simp: Let_def)
    qed
  qed
qed

lemma running_max_append:
  "running_max m (ps @ [p]) = (if p > running_max m ps then p else running_max m ps)"
  by (induction ps arbitrary: m) simp_all

lemma running_max_Max: "running_max m ps = Max (insert m (set ps))"
proof (induction ps arbitrary: m)
  case Nil
  then show ?case by simp
next
  case (Cons p ps)
  have "Max (insert (if m < p then p else m) (set ps)) = Max (insert m (insert p (set ps)))"
    by (cases "set ps = {}") (auto simp: max_def)
  with Cons show ?case by simp
qed

text \<open>
  Claim C1 says that \<open>max_collision_prob\<close> holds the maximum of the probabilities of
  the samples. The parameter is a reference to a value of the caller, and the loop only
  raises it: called with the value 20 on a free segment whose samples have the
  probabilities 0 and \<open>1/2\<close>, \<^verbatim>\<open>CollisionCheck\<close> returns true and leaves 20.
\<close>

theorem CollisionCheck_incoming_maximum:
  "CollisionCheck free_planner 5 (0, 0, 0) (1, 0, 0) 0 1 20 =
     (Some True, 20, [((0, 0, 0), 0), ((1 / 2, 0, 0), 1 / 2)])
   \<and> Max (set (map (prob_of free_planner) [((0, 0, 0), 0), ((1 / 2, 0, 0), 1 / 2)])) = 1 / 2"
proof
  show "CollisionCheck free_planner 5 (0, 0, 0) (1, 0, 0) 0 1 20 =
     (Some True, 20, [((0, 0, 0), 0), ((1 / 2, 0, 0), 1 / 2)])"
    by (simp add: CollisionCheck_def segment_direction_def segment_dt_def vector_defs
        example_defs numeral_eq_Suc)
  show "Max (set (map (prob_of free_planner) [((0, 0, 0), 0), ((1 / 2, 0, 0), 1 / 2)])) = 1 / 2"
    by (simp add: example_oracle)
qed

text \<open>
  Claim C1, amended. The samples of a call are numbered from 0, each with its point and
  its time as the loop computes them. If the samples before the \<open>k\<close>-th are valid and
  the \<open>k\<close>-th, still before the stop time, is invalid, \<^verbatim>\<open>CollisionCheck\<close> returns
  false at that sample: it has asked about the samples up to and including it and about
  no other, and \<open>max_collision_prob\<close> holds the greatest of the value the caller passed
  in and the probabilities of these samples. If the first \<open>n\<close> samples are valid and the
  \<open>n\<close>-th is no longer before the stop time, it returns true, having asked about those
  \<open>n\<close> samples, and \<open>max_collision_prob\<close> holds the greatest of the value passed in
  and the probabilities of all of them. That value is the greatest of the probabilities
  of the samples alone whenever the value passed in is not above all of them.
\<close>

theorem CollisionCheck_running_maximum:
  "((\<forall>j<k. snd (sample P start stop start_time stop_time j) < stop_time
            \<and> valid_of P (sample P start stop start_time stop_time j))
     \<and> snd (sample P start stop start_time stop_time k) < stop_time
     \<and> \<not> valid_of P (sample P start stop start_time stop_time k) \<and> k < fuel
     \<longrightarrow> CollisionCheck P fuel start stop start_time stop_time mp =
           (Some False,
            running_max mp (map (\<lambda>j. prob_of P (sample P start stop start_time stop_time j)) [0..<Suc k]),
            map (sample P start stop start_time stop_time) [0..<Suc k]))
   \<and> ((\<forall>j<n. snd (sample P start stop start_time stop_time j) < stop_time
            \<and> valid_of P (sample P start stop start_time stop_time j))
     \<and> \<not> snd (sample P start stop start_time stop_time n) < stop_time \<and> n \<le> fuel
     \<longrightarrow> CollisionCheck P fuel start stop start_time stop_time mp =
           (Some True,
            running_max mp (map (\<lambda>j. prob_of P (sample P start stop start_time stop_time j)) [0..<n]),
            map (sample P start stop start_time stop_time) [0..<n]))
   \<and> running_max mp ps = Max (insert mp (set ps))
   \<and> ((\<exists>p \<in> set ps. mp \<le> p) \<longrightarrow> running_max mp ps = Max (set ps))"
proof (intro conjI impI)
  let ?d = "segment_direction P start stop"
  let ?dt = "segment_dt P start stop start_time stop_time"
  let ?s = "sample_at P ?d ?dt start start_time"
  {
    assume h: "(\<forall>j<k. snd (sample P start stop start_time stop_time j) < stop_time
            \<and> valid_of P (sample P start stop start_time stop_time j))
     \<and> snd (sample P start stop start_time stop_time k) < stop_time
     \<and> \<not> valid_of P (sample P start stop start_time stop_time k) \<and> k < fuel"
    then obtain f where f: "fuel - k = Suc f" by (cases "fuel - k") auto
    from h have pre: "\<forall>j<k. snd (?s j) < stop_time \<and> valid_of P (?s j)"
      and last: "snd (?s k) < stop_time" "\<not> valid_of P (?s k)" and kf: "k \<le> fuel"
      by (simp_all add: sample_def)
    have "space_IsValid P (fst (?s k)) (incoming_value P) (outgoing_value P) (snd (?s k))
          = (False, prob_of P (?s k))"
      using last(2) by (simp add: valid_of_def prob_of_def prod_eq_iff)
    then show "CollisionCheck P fuel start stop start_time stop_time mp =
           (Some False,
            running_max mp (map (\<lambda>j. prob_of P (sample P start stop start_time stop_time j)) [0..<Suc k]),
            map (sample P start stop start_time stop_time) [0..<Suc k])"
      unfolding CollisionCheck_def walk_segment_prefix [OF pre kf] f
      using last(1) by (simp add: sample_def Let_def running_max_append)
  }
  {
    assume h: "(\<forall>j<n. snd (sample P start stop start_time stop_time j) < stop_time
            \<and> valid_of P (sample P start stop start_time stop_time j))
     \<and> \<not> snd (sample P start stop start_time stop_time n) < stop_time \<and> n \<le> fuel"
    then have pre: "\<forall>j<n. snd (?s j) < stop_time \<and> valid_of P (?s j)"
      and last: "\<not> snd (?s n) < stop_time" and nf: "n \<le> fuel"
      by (simp_all add: sample_def)
    show "CollisionCheck P fuel start stop start_time stop_time mp =
           (Some True,
            running_max mp (map (\<lambda>j. prob_of P (sample P start stop start_time stop_time j)) [0..<n]),
            map (sample P start stop start_time stop_time) [0..<n])"
      unfolding CollisionCheck_def walk_segment_prefix [OF pre nf]
      using last by (cases "fuel - n") (simp_all add: sample_def)
  }
  show "running_max mp ps = Max (insert mp (set ps))"
    by (rule running_max_Max)
  {
    assume "\<exists>p \<in> set ps. mp \<le> p"
    then obtain p where p: "p \<in> set ps" "mp \<le> p" by blast
    then have "p \<le> Max (set ps)" by simp
    with p have "mp \<le> Max (set ps)" by linarith
    then have "max mp (Max (set ps)) = Max (set ps)" by (simp add: max_def)
    moreover from p have "set ps \<noteq> {}" by auto
    ultimately show "running_max mp ps = Max (set ps)"
      by (simp add: running_max_Max)
  }
qed

theorem CollisionCheck_running_maximum_witness:
  "CollisionCheck example_planner 5 (0, 0, 0) (1, 0, 0) 0 1 0 =
     (Some False, 1 / 2, [((0, 0, 0), 0), ((1 / 2, 0, 0), 1 / 2)])
   \<and> CollisionCheck free_planner 5 (0, 0, 0) (1, 0, 0) 0 1 0 =
     (Some True, 1 / 2, [((0, 0, 0), 0), ((1 / 2, 0, 0), 1 / 2)])
   \<and> (\<exists>p \<in> set [0, 1 / 2 :: real]. 0 \<le> p)
   \<and> running_max 0 [0, 1 / 2] = Max (set [0, 1 / 2])"
proof (intro conjI)
  have h1: "(\<forall>j<Suc 0. snd (sample example_planner (0, 0, 0) (1, 0, 0) 0 1 j) < 1
            \<and> valid_of example_planner (sample example_planner (0, 0, 0) (1, 0, 0) 0 1 j))
     \<and> snd (sample example_planner (0, 0, 0) (1, 0, 0) 0 1 (Suc 0)) < 1
     \<and> \<not> valid_of example_planner (sample example_planner (0, 0, 0) (1, 0, 0) 0 1 (Suc 0))
     \<and> Suc 0 < 5"
    by (simp add: example_samples example_oracle)
  from CollisionCheck_running_maximum [THEN conjunct1, rule_format, OF h1, of 0]
  show "CollisionCheck example_planner 5 (0, 0, 0) (1, 0, 0) 0 1 0 =
     (Some False, 1 / 2, [((0, 0, 0), 0), ((1 / 2, 0, 0), 1 / 2)])"
    by (simp add: example_samples example_oracle)
  have h2: "(\<forall>j<Suc (Suc 0). snd (sample free_planner (0, 0, 0) (1, 0, 0) 0 1 j) < 1
            \<and> valid_of free_planner (sample free_planner (0, 0, 0) (1, 0, 0) 0 1 j))
     \<and> \<not> snd (sample free_planner (0, 0, 0) (1, 0, 0) 0 1 (Suc (Suc 0))) < 1
     \<and> Suc (Suc 0) \<le> 5"
    by (simp add: example_samples example_oracle less_Suc_eq)
  from CollisionCheck_running_maximum [THEN conjunct2, THEN conjunct1, rule_format, OF h2, of 0]
  show "CollisionCheck free_planner 5 (0, 0, 0) (1, 0, 0) 0 1 0 =
     (Some True, 1 / 2, [((0, 0, 0), 0), ((1 / 2, 0, 0), 1 / 2)])"
    by (simp add: example_samples example_oracle)
  have h3: "\<exists>p \<in> set [0, 1 / 2 :: real]. 0 \<le> p" by simp
  then show "\<exists>p \<in> set [0, 1 / 2 :: real]. 0 \<le> p" .
  from CollisionCheck_running_maximum [THEN conjunct2, THEN conjunct2, THEN conjunct2,
      rule_format, OF h3]
  show "running_max 0 [0, 1 / 2] = Max (set [0, 1 / 2])" .
qed

text \<open>
  Claim C10. Every query that \<^verbatim>\<open>CollisionCheck\<close> makes, however long it runs, is at
  a time strictly before \<open>stop_time\<close>, so the stop position at the stop time is not
  among the queries; and when \<open>stop_time \<le> start_time\<close> it makes no query, reports the
  segment free and leaves \<open>max_collision_prob\<close> as it was.
\<close>

theorem CollisionCheck_before_stop_time:
  "(\<forall>q \<in> set (snd (snd (CollisionCheck P fuel start stop start_time stop_time mp))).
      snd q < stop_time)
   \<and> (stop, stop_time) \<notin> set (snd (snd (CollisionCheck P fuel start stop start_time stop_time mp)))
   \<and> (stop_time \<le> start_time \<longrightarrow>
        CollisionCheck P fuel start stop start_time stop_time mp = (Some True, mp, []))"
proof (intro conjI)
  show "\<forall>q \<in> set (snd (snd (CollisionCheck P fuel start stop start_time stop_time mp))).
      snd q < stop_time"
    using walk_segment_times [of P "segment_direction P start stop"
        "segment_dt P start stop start_time stop_time" stop_time fuel start start_time mp "[]"]
    by (auto simp: CollisionCheck_def)
  then show "(stop, stop_time) \<notin>
      set (snd (snd (CollisionCheck P fuel start stop start_time stop_time mp)))"
    by fastforce
  show "stop_time \<le> start_time \<longrightarrow>
        CollisionCheck P fuel start stop start_time stop_time mp = (Some True, mp, [])"
    by (cases fuel) (simp_all add: CollisionCheck_def)
qed

theorem CollisionCheck_before_stop_time_witness:
  "CollisionCheck free_planner 5 (0, 0, 0) (1, 0, 0) 0 1 0 =
     (Some True, 1 / 2, [((0, 0, 0), 0), ((1 / 2, 0, 0), 1 / 2)])
   \<and> (0 :: real) < 1 \<and> (1 / 2 :: real) < 1
   \<and> ((1, 0, 0), 1) \<notin> set [((0, 0, 0), 0 :: real), ((1 / 2, 0, 0), 1 / 2)]
   \<and> CollisionCheck free_planner 5 (0, 0, 0) (1, 0, 0) 1 1 0 = (Some True, 0, [])"
proof -
  have "\<forall>q \<in> set (snd (snd (CollisionCheck free_planner 5 (0, 0, 0) (1, 0, 0) 0 1 0))). snd q < 1"
    using CollisionCheck_before_stop_time [of free_planner 5 "(0, 0, 0)" "(1, 0, 0)" 0 1 0] by blast
  moreover have "CollisionCheck free_planner 5 (0, 0, 0) (1, 0, 0) 1 1 0 = (Some True, 0, [])"
    using CollisionCheck_before_stop_time [of free_planner 5 "(0, 0, 0)" "(1, 0, 0)" 1 1 0] by simp
  ultimately show ?thesis by (simp add: free_planner_check)
qed

subsection \<open>The cost to come\<close>

text \<open>
  Claim C3. For a parent that is not null, \<^verbatim>\<open>ComputeCostToCome\<close> returns the
  parent's cost to come plus the Euclidean distance from the parent's position to the
  point; no time is added, and the argument \<open>dt\<close> has no influence on the result.
\<close>

theorem ComputeCostToCome_distance_only:
  "ComputeCostToCome P (Some parent) point dt =
     xadd (node_cost_to_come parent) (Finite (vnorm (vsub (node_point parent) point)))
   \<and> ComputeCostToCome P (Some parent) point dt = ComputeCostToCome P (Some parent) point dt'"
  by (simp add: ComputeCostToCome_def)

subsection \<open>The RRT\<close>

text \<open>A tree that is not empty has a nearest neighbour.\<close>

lemma KnnSearch_nonempty: "tree \<noteq> [] \<Longrightarrow> KnnSearch tree q (Suc 0) \<noteq> []"
proof -
  assume "tree \<noteq> []"
  then have "length (sort_key (\<lambda>n. squaredNorm (vsub (rrt_point n) q)) tree) \<noteq> 0"
    by simp
  then show ?thesis
    unfolding KnnSearch_def by (cases "sort_key (\<lambda>n. squaredNorm (vsub (rrt_point n) q)) tree") simp_all
qed

text \<open>
  The sampling loop leaves the tree as it is, and it ends, if it ends, only after the
  loop.
\<close>

lemma rrt_loop_tree:
  "kdtree s \<noteq> [] \<Longrightarrow>
   kdtree (snd (rrt_loop P stop budget begin n s)) = kdtree s
   \<and> (fst (rrt_loop P stop budget begin n s) = None
      \<or> fst (rrt_loop P stop budget begin n s) = Some (Inl BudgetExpired))"
proof (induction n arbitrary: s)
  case 0
  then show ?case by simp
next
  case (Suc n)
  let ?s1 = "s\<lparr>rrt_clock_reads := Suc (rrt_clock_reads s), samples_drawn := Suc (samples_drawn s)\<rparr>"
  have ne: "kdtree ?s1 \<noteq> []" using Suc.prems by simp
  from KnnSearch_nonempty [OF Suc.prems, of "space_Sample P (samples_drawn s)"]
  obtain nb others where nb: "KnnSearch (kdtree s) (space_Sample P (samples_drawn s)) (Suc 0) = nb # others"
    by (cases "KnnSearch (kdtree s) (space_Sample P (samples_drawn s)) (Suc 0)") auto
  show ?case
  proof (cases "now P (rrt_clock_reads s) - begin < budget")
    case True
    then have "rrt_loop P stop budget begin (Suc n) s = rrt_loop P stop budget begin n ?s1"
      using nb by (simp add: Let_def Rrt_CollisionCheck_def)
    with Suc.IH [OF ne] show ?thesis by simp
  next
    case False
    then show ?thesis by simp
  qed
qed

text \<open>
  If the budget has expired at the \<open>k\<close>-th reading of the clock from now on, the loop
  ends within \<open>k + 1\<close> iterations.
\<close>

lemma rrt_loop_expires:
  "budget \<le> now P (rrt_clock_reads s + k) - begin \<Longrightarrow> k < n \<Longrightarrow> kdtree s \<noteq> [] \<Longrightarrow>
   fst (rrt_loop P stop budget begin n s) = Some (Inl BudgetExpired)"
proof (induction k arbitrary: n s)
  case 0
  then obtain m where "n = Suc m" by (cases n) auto
  with 0 show ?case by simp
next
  case (Suc k)
  then obtain m where m: "n = Suc m" and km: "k < m" by (cases n) auto
  let ?s1 = "s\<lparr>rrt_clock_reads := Suc (rrt_clock_reads s), samples_drawn := Suc (samples_drawn s)\<rparr>"
  have ne: "kdtree ?s1 \<noteq> []" using Suc.prems by simp
  from KnnSearch_nonempty [OF Suc.prems(3), of "space_Sample P (samples_drawn s)"]
  obtain nb others where nb: "KnnSearch (kdtree s) (space_Sample P (samples_drawn s)) (Suc 0) = nb # others"
    by (cases "KnnSearch (kdtree s) (space_Sample P (samples_drawn s)) (Suc 0)") auto
  show ?case
  proof (cases "now P (rrt_clock_reads s) - begin < budget")
    case True
    then have "rrt_loop P stop budget begin n s = rrt_loop P stop budget begin m ?s1"
      using nb m by (simp add: Let_def Rrt_CollisionCheck_def)
    moreover have "budget \<le> now P (rrt_clock_reads ?s1 + k) - begin"
      using Suc.prems(1) by simp
    ultimately show ?thesis using Suc.IH [OF _ km ne] by simp
  next
    case False
    then show ?thesis using m by simp
  qed
qed

text \<open>
  While the readings of the clock are within the budget, the loop goes on: each
  iteration reads the clock once and draws one point, and leaves the tree as it is.
\<close>

lemma rrt_loop_runs:
  "\<forall>j<k. now P (rrt_clock_reads s + j) - begin < budget \<Longrightarrow> k \<le> n \<Longrightarrow> kdtree s \<noteq> [] \<Longrightarrow>
   rrt_loop P stop budget begin n s =
     rrt_loop P stop budget begin (n - k)
       (s\<lparr>rrt_clock_reads := rrt_clock_reads s + k, samples_drawn := samples_drawn s + k\<rparr>)"
proof (induction k arbitrary: n s)
  case 0
  then show ?case by simp
next
  case (Suc k)
  then obtain m where m: "n = Suc m" and km: "k \<le> m" by (cases n) auto
  let ?s1 = "s\<lparr>rrt_clock_reads := Suc (rrt_clock_reads s), samples_drawn := Suc (samples_drawn s)\<rparr>"
  have ne: "kdtree ?s1 \<noteq> []" using Suc.prems by simp
  from KnnSearch_nonempty [OF Suc.prems(3), of "space_Sample P (samples_drawn s)"]
  obtain nb others where nb: "KnnSearch (kdtree s) (space_Sample P (samples_drawn s)) (Suc 0) = nb # others"
    by (cases "KnnSearch (kdtree s) (space_Sample P (samples_drawn s)) (Suc 0)") auto
  from Suc.prems(1) have first: "now P (rrt_clock_reads s) - begin < budget"
    by (auto dest: spec [of _ 0])
  have rest: "\<forall>j<k. now P (rrt_clock_reads ?s1 + j) - begin < budget"
    using Suc.prems(1) by (auto dest: spec [of _ "Suc _"])
  have "rrt_loop P stop budget begin n s = rrt_loop P stop budget begin m ?s1"
    using first nb m by (simp add: Let_def Rrt_CollisionCheck_def)
  also have "\<dots> = rrt_loop P stop budget begin (m - k)
       (?s1\<lparr>rrt_clock_reads := rrt_clock_reads ?s1 + k, samples_drawn := samples_drawn ?s1 + k\<rparr>)"
    by (rule Suc.IH [OF rest km ne])
  finally show ?case using m by simp
qed

text \<open>
  After \<open>k\<close> readings within the budget, the loop returns at the first reading that is
  not, and it is still running when the bound on its iterations is \<open>k\<close>.
\<close>

lemma rrt_loop_exact:
  assumes "\<forall>j<k. now P (rrt_clock_reads s + j) - begin < budget" and "kdtree s \<noteq> []"
  shows "\<not> now P (rrt_clock_reads s + k) - begin < budget \<Longrightarrow> k < n \<Longrightarrow>
         rrt_loop P stop budget begin n s =
           (Some (Inl BudgetExpired),
            s\<lparr>rrt_clock_reads := rrt_clock_reads s + k + 1,
              samples_drawn := samples_drawn s + k\<rparr>)"
    and "k = n \<Longrightarrow>
         rrt_loop P stop budget begin n s =
           (None, s\<lparr>rrt_clock_reads := rrt_clock_reads s + n,
                    samples_drawn := samples_drawn s + n\<rparr>)"
proof -
  assume last: "\<not> now P (rrt_clock_reads s + k) - begin < budget" and kn: "k < n"
  then obtain m where m: "n - k = Suc m" by (cases "n - k") auto
  from kn have "k \<le> n" by simp
  from rrt_loop_runs [OF assms(1) this assms(2), of stop] last
  show "rrt_loop P stop budget begin n s =
           (Some (Inl BudgetExpired),
            s\<lparr>rrt_clock_reads := rrt_clock_reads s + k + 1,
              samples_drawn := samples_drawn s + k\<rparr>)"
    by (simp add: m)
next
  assume "k = n"
  with rrt_loop_runs [OF assms(1) _ assms(2), of n stop]
  show "rrt_loop P stop budget begin n s =
           (None, s\<lparr>rrt_clock_reads := rrt_clock_reads s + n,
                    samples_drawn := samples_drawn s + n\<rparr>)"
    by simp
qed

text \<open>
  Claim C8. \<^verbatim>\<open>TimeVaryingRrt::CollisionCheck\<close> returns false for every pair of
  points and every start time. For endpoints that pass the validity test, the tree of
  \<^verbatim>\<open>Plan\<close> holds, however long the loop runs, what it held before and the root,
  and \<^verbatim>\<open>Plan\<close> returns no trajectory from inside the loop. \<^verbatim>\<open>Plan\<close> returns
  when the budget expires and not before: if the first \<open>k\<close> readings of the clock in the
  loop are within the budget and the next one is not, \<^verbatim>\<open>Plan\<close> returns
  \<^verbatim>\<open>nullptr\<close> after the loop, having drawn \<open>k\<close> points and read the clock
  \<open>k + 2\<close> times (once before the loop), with the root as the only node added; and as
  long as the readings are within the budget, \<^verbatim>\<open>Plan\<close> is still running, with one
  point drawn for each of them.
\<close>

theorem Rrt_Plan_never_connects:
  "\<not> Rrt_CollisionCheck a b t
   \<and> (space_IsValid3 P start (incoming_value P) (outgoing_value P)
      \<and> space_IsValid3 P stop (incoming_value P) (outgoing_value P)
      \<longrightarrow> kdtree (snd (Rrt_Plan P fuel tree start stop start_time budget)) =
            tree @ [RrtNode start None start_time]
          \<and> (fst (Rrt_Plan P fuel tree start stop start_time budget) = None
             \<or> fst (Rrt_Plan P fuel tree start stop start_time budget) = Some (Inl BudgetExpired)))
   \<and> (space_IsValid3 P start (incoming_value P) (outgoing_value P)
      \<and> space_IsValid3 P stop (incoming_value P) (outgoing_value P)
      \<and> (\<forall>j<k. now P (Suc j) - now P 0 < budget)
      \<and> \<not> now P (Suc k) - now P 0 < budget \<and> k < fuel
      \<longrightarrow> Rrt_Plan P fuel tree start stop start_time budget =
            (Some (Inl BudgetExpired),
             \<lparr>kdtree = tree @ [RrtNode start None start_time], samples_drawn = k,
              rrt_clock_reads = k + 2\<rparr>))
   \<and> (space_IsValid3 P start (incoming_value P) (outgoing_value P)
      \<and> space_IsValid3 P stop (incoming_value P) (outgoing_value P)
      \<and> (\<forall>j<fuel. now P (Suc j) - now P 0 < budget)
      \<longrightarrow> Rrt_Plan P fuel tree start stop start_time budget =
            (None,
             \<lparr>kdtree = tree @ [RrtNode start None start_time], samples_drawn = fuel,
              rrt_clock_reads = fuel + 1\<rparr>))
   \<and> (space_IsValid3 P start (incoming_value P) (outgoing_value P)
      \<and> space_IsValid3 P stop (incoming_value P) (outgoing_value P)
      \<and> budget \<le> now P (Suc k) - now P 0 \<and> k < fuel
      \<longrightarrow> fst (Rrt_Plan P fuel tree start stop start_time budget) = Some (Inl BudgetExpired))"
proof (intro conjI impI)
  show "\<not> Rrt_CollisionCheck a b t" by (simp add: Rrt_CollisionCheck_def)
next
  let ?s = "\<lparr>kdtree = tree @ [RrtNode start None start_time], samples_drawn = 0,
             rrt_clock_reads = Suc 0\<rparr>"
  assume v: "space_IsValid3 P start (incoming_value P) (outgoing_value P)
      \<and> space_IsValid3 P stop (incoming_value P) (outgoing_value P)"
  then have eq: "Rrt_Plan P fuel tree start stop start_time budget =
      rrt_loop P stop budget (now P 0) fuel ?s"
    by (simp add: Rrt_Plan_def KdTree_Insert_def)
  have ne: "kdtree ?s \<noteq> []" by simp
  from rrt_loop_tree [OF ne, of P stop budget "now P 0" fuel]
  show "kdtree (snd (Rrt_Plan P fuel tree start stop start_time budget)) =
            tree @ [RrtNode start None start_time]"
    and "fst (Rrt_Plan P fuel tree start stop start_time budget) = None
             \<or> fst (Rrt_Plan P fuel tree start stop start_time budget) = Some (Inl BudgetExpired)"
    unfolding eq by simp_all
next
  let ?s = "\<lparr>kdtree = tree @ [RrtNode start None start_time], samples_drawn = 0,
             rrt_clock_reads = Suc 0\<rparr>"
  assume v: "space_IsValid3 P start (incoming_value P) (outgoing_value P)
      \<and> space_IsValid3 P stop (incoming_value P) (outgoing_value P)
      \<and> (\<forall>j<k. now P (Suc j) - now P 0 < budget)
      \<and> \<not> now P (Suc k) - now P 0 < budget \<and> k < fuel"
  then have eq: "Rrt_Plan P fuel tree start stop start_time budget =
      rrt_loop P stop budget (now P 0) fuel ?s"
    by (simp add: Rrt_Plan_def KdTree_Insert_def)
  have ne: "kdtree ?s \<noteq> []" by simp
  have run: "\<forall>j<k. now P (rrt_clock_reads ?s + j) - now P 0 < budget" using v by simp
  have last: "\<not> now P (rrt_clock_reads ?s + k) - now P 0 < budget" using v by simp
  from v have kf: "k < fuel" by simp
  from rrt_loop_exact(1) [OF run ne last kf, of stop]
  show "Rrt_Plan P fuel tree start stop start_time budget =
            (Some (Inl BudgetExpired),
             \<lparr>kdtree = tree @ [RrtNode start None start_time], samples_drawn = k,
              rrt_clock_reads = k + 2\<rparr>)"
    unfolding eq by simp
next
  let ?s = "\<lparr>kdtree = tree @ [RrtNode start None start_time], samples_drawn = 0,
             rrt_clock_reads = Suc 0\<rparr>"
  assume v: "space_IsValid3 P start (incoming_value P) (outgoing_value P)
      \<and> space_IsValid3 P stop (incoming_value P) (outgoing_value P)
      \<and> (\<forall>j<fuel. now P (Suc j) - now P 0 < budget)"
  then have eq: "Rrt_Plan P fuel tree start stop start_time budget =
      rrt_loop P stop budget (now P 0) fuel ?s"
    by (simp add: Rrt_Plan_def KdTree_Insert_def)
  have ne: "kdtree ?s \<noteq> []" by simp
  have run: "\<forall>j<fuel. now P (rrt_clock_reads ?s + j) - now P 0 < budget" using v by simp
  from rrt_loop_exact(2) [OF run ne refl, of stop]
  show "Rrt_Plan P fuel tree start stop start_time budget =
            (None,
             \<lparr>kdtree = tree @ [RrtNode start None start_time], samples_drawn = fuel,
              rrt_clock_reads = fuel + 1\<rparr>)"
    unfolding eq by simp
next
  let ?s = "\<lparr>kdtree = tree @ [RrtNode start None start_time], samples_drawn = 0,
             rrt_clock_reads = Suc 0\<rparr>"
  assume v: "space_IsValid3 P start (incoming_value P) (outgoing_value P)
      \<and> space_IsValid3 P stop (incoming_value P) (outgoing_value P)
      \<and> budget \<le> now P (Suc k) - now P 0 \<and> k < fuel"
  then have eq: "Rrt_Plan P fuel tree start stop start_time budget =
      rrt_loop P stop budget (now P 0) fuel ?s"
    by (simp add: Rrt_Plan_def KdTree_Insert_def)
  have ne: "kdtree ?s \<noteq> []" by simp
  have "budget \<le> now P (rrt_clock_reads ?s + k) - now P 0" using v by simp
  from rrt_loop_expires [OF this _ ne, of fuel stop] v
  show "fst (Rrt_Plan P fuel tree start stop start_time budget) = Some (Inl BudgetExpired)"
    unfolding eq by simp
qed

theorem Rrt_Plan_never_connects_witness:
  "space_IsValid3 example_planner (0, 0, 0) (incoming_value example_planner) (outgoing_value example_planner)
   \<and> space_IsValid3 example_planner (1, 0, 0) (incoming_value example_planner) (outgoing_value example_planner)
   \<and> now example_planner (Suc 0) - now example_planner 0 < 2
   \<and> \<not> now example_planner (Suc 1) - now example_planner 0 < 2 \<and> (1 :: nat) < 5
   \<and> Rrt_Plan example_planner 5 [] (0, 0, 0) (1, 0, 0) 0 2 =
       (Some (Inl BudgetExpired),
        \<lparr>kdtree = [RrtNode (0, 0, 0) None 0], samples_drawn = 1, rrt_clock_reads = 3\<rparr>)
   \<and> Rrt_Plan example_planner 1 [] (0, 0, 0) (1, 0, 0) 0 2 =
       (None, \<lparr>kdtree = [RrtNode (0, 0, 0) None 0], samples_drawn = 1, rrt_clock_reads = 2\<rparr>)"
proof -
  have h: "space_IsValid3 example_planner (0, 0, 0) (incoming_value example_planner) (outgoing_value example_planner)
   \<and> space_IsValid3 example_planner (1, 0, 0) (incoming_value example_planner) (outgoing_value example_planner)
   \<and> (\<forall>j<1. now example_planner (Suc j) - now example_planner 0 < 2)
   \<and> \<not> now example_planner (Suc 1) - now example_planner 0 < 2 \<and> (1 :: nat) < 5"
    by (simp add: example_planner_def)
  have h': "space_IsValid3 example_planner (0, 0, 0) (incoming_value example_planner) (outgoing_value example_planner)
   \<and> space_IsValid3 example_planner (1, 0, 0) (incoming_value example_planner) (outgoing_value example_planner)
   \<and> (\<forall>j<1. now example_planner (Suc j) - now example_planner 0 < 2)"
    using h by blast
  from Rrt_Plan_never_connects [THEN conjunct2, THEN conjunct2, THEN conjunct1, rule_format, OF h,
      where tree = "[]" and start_time = 0]
    Rrt_Plan_never_connects [THEN conjunct2, THEN conjunct2, THEN conjunct2, THEN conjunct1,
      rule_format, OF h', where tree = "[]" and start_time = 0]
  show ?thesis using h by simp
qed

text \<open>
  Claim C9. When the environment reports the start or the stop invalid (the call of
  \<^verbatim>\<open>IsValid\<close> without a time), \<^verbatim>\<open>TimeVaryingRrt::Plan\<close> returns
  \<^verbatim>\<open>nullptr\<close> at the warning about that point, the start first: the tree is as
  it was, no point has been drawn and the clock has not been read. The return is not
  the one after the loop.
\<close>

theorem Rrt_Plan_invalid_endpoint:
  "\<not> space_IsValid3 P start (incoming_value P) (outgoing_value P)
   \<or> \<not> space_IsValid3 P stop (incoming_value P) (outgoing_value P)
   \<longrightarrow> Rrt_Plan P fuel tree start stop start_time budget =
         (Some (Inl (if \<not> space_IsValid3 P start (incoming_value P) (outgoing_value P)
                     then StartInvalid else StopInvalid)),
          \<lparr>kdtree = tree, samples_drawn = 0, rrt_clock_reads = 0\<rparr>)
       \<and> fst (Rrt_Plan P fuel tree start stop start_time budget) \<noteq> Some (Inl BudgetExpired)"
  by (auto simp: Rrt_Plan_def)

theorem Rrt_Plan_invalid_endpoint_witness:
  "\<not> space_IsValid3 walled_planner (- 1, 0, 0) (incoming_value walled_planner)
        (outgoing_value walled_planner)
   \<and> Rrt_Plan walled_planner 5 [] (0, 0, 0) (- 1, 0, 0) 0 2 =
       (Some (Inl StopInvalid), \<lparr>kdtree = [], samples_drawn = 0, rrt_clock_reads = 0\<rparr>)
   \<and> Rrt_Plan walled_planner 5 [] (- 1, 0, 0) (0, 0, 0) 0 2 =
       (Some (Inl StartInvalid), \<lparr>kdtree = [], samples_drawn = 0, rrt_clock_reads = 0\<rparr>)"
proof -
  have bad: "\<not> space_IsValid3 walled_planner (- 1, 0, 0) (incoming_value walled_planner)
        (outgoing_value walled_planner)"
    and good: "space_IsValid3 walled_planner (0, 0, 0) (incoming_value walled_planner)
        (outgoing_value walled_planner)"
    by (simp_all add: walled_planner_def example_defs)
  from Rrt_Plan_invalid_endpoint [of walled_planner "(0, 0, 0)" "(- 1, 0, 0)" 5 "[]" 0 2]
    Rrt_Plan_invalid_endpoint [of walled_planner "(- 1, 0, 0)" "(0, 0, 0)" 5 "[]" 0 2]
  show ?thesis using bad good by simp
qed

subsection \<open>The budget check of the A* search\<close>

text \<open>
  With a budget of 0 and a clock that has not advanced between the reading at the start
  of \<^verbatim>\<open>Plan\<close> and the first check, the elapsed time 0 is not greater than the
  budget: the search goes on, and here it returns a trajectory.
\<close>

theorem Plan_zero_budget_counterexample:
  "fst (Plan frozen_planner 2 (0, 0, 0) (0, 0, 0) 0 0) =
     Some (Inr \<lparr>traj_times = [0, 2], traj_states = [[0, 0, 0], [0, 0, 0]],
                traj_incoming_values = [0, 0], traj_outgoing_values = [0, 0]\<rparr>)"
  by (simp add: Plan_def initial_search_def Node_Create_def multiset_insert_def Let_def
      connect_goal_def GenerateTrajectory_def waypoints_def is_goal_def frozen_planner_def example_defs
      numeral_2_eq_2 ComputeHeuristic_def)

text \<open>
  Claim C6, amended. With a budget of 0, whenever the reading of the clock at the first
  check is later than the reading at the start of \<^verbatim>\<open>Plan\<close>, \<^verbatim>\<open>Plan\<close> returns
  \<^verbatim>\<open>nullptr\<close> at that check: the store holds the root and nothing else, the open
  set holds the root, nothing is closed and the oracle has not been asked.
\<close>

theorem Plan_zero_budget:
  "0 < now P 1 - now P 0 \<longrightarrow>
     Plan P (Suc fuel) start stop start_time 0 =
       (Some (Inl BudgetExceeded),
        \<lparr>nodes = [\<lparr>node_point = start, node_parent = None, node_time = start_time,
                   node_cost_to_come = Finite 0,
                   node_heuristic = BestPossibleTime P start stop,
                   node_priority = Finite (BestPossibleTime P start stop),
                   node_collision_prob = initial_collision_prob P\<rparr>],
         open_set = [0], closed_set = [], queries = [], clock_reads = 2\<rparr>)"
  by (simp add: Plan_def initial_search_def Node_Create_def multiset_insert_def Let_def
      ComputeHeuristic_def)

theorem Plan_zero_budget_witness:
  "0 < now example_planner 1 - now example_planner 0
   \<and> Plan example_planner (Suc 0) (0, 0, 0) (5, 0, 0) 0 0 =
       (Some (Inl BudgetExceeded),
        \<lparr>nodes = [\<lparr>node_point = (0, 0, 0), node_parent = None, node_time = 0,
                   node_cost_to_come = Finite 0, node_heuristic = 2,
                   node_priority = Finite 2, node_collision_prob = 0\<rparr>],
         open_set = [0], closed_set = [], queries = [], clock_reads = 2\<rparr>)"
proof -
  have h: "0 < now example_planner 1 - now example_planner 0"
    by (simp add: example_defs)
  from Plan_zero_budget [rule_format, OF h, of 0 "(0, 0, 0)" "(5, 0, 0)" 0]
  show ?thesis using h by (simp add: example_defs)
qed

subsection \<open>The open set\<close>

text \<open>
  Two priorities are equivalent under the comparator exactly when they are equal, so
  the element that \<open>multiset_find\<close> returns has the priority of the key.
\<close>

lemma xless_equivalent: "(\<not> xless a b \<and> \<not> xless b a) = (a = b)"
  by (cases a; cases b) auto

lemma multiset_find_priority:
  "multiset_find store x xs = Some m \<Longrightarrow> node_priority (store ! m) = node_priority (store ! x)"
  unfolding multiset_find_def comp_at_def NodeComparitor_def xless_equivalent
  by (auto simp: find_Some_iff)

lemma xless_irrefl: "\<not> xless a a"
  by (cases a) auto

text \<open>
  The candidate is never less than the match in priority: the branch that erases the
  match and inserts the candidate is never taken.
\<close>

lemma update_open_never_replaces:
  "update_open store neighbor_node opn =
     (case multiset_find store neighbor_node opn of
        Some match \<Rightarrow> opn
      | None \<Rightarrow> multiset_insert store neighbor_node opn)"
  by (auto simp: update_open_def xless_irrefl split: option.splits dest!: multiset_find_priority)

text \<open>
  Claim C5 says that of two nodes at the same grid position the open set keeps the one
  of lower priority. The code looks the candidate up with the comparator of the
  multiset, which compares priorities: two nodes at the same position with different
  priorities do not match. With a node of priority 5 open and a candidate of priority 3
  at the same position, the open set afterwards holds both, and so it does when the
  candidate is the one of priority 5 and the node of priority 3 is open.
\<close>

theorem update_open_keeps_both:
  "node_point (example_nodes ! 0) = node_point (example_nodes ! 1)
   \<and> xless (node_priority (example_nodes ! 1)) (node_priority (example_nodes ! 0))
   \<and> update_open example_nodes 1 [0] = [1, 0]
   \<and> update_open example_nodes 0 [1] = [1, 0]"
  by (simp add: example_nodes_def update_open_def multiset_find_def multiset_insert_def
      comp_at_def NodeComparitor_def)

subsection \<open>The store of the search\<close>

lemma set_multiset_insert: "set (multiset_insert store x opn) = insert x (set opn)"
proof -
  have "set (takeWhile (\<lambda>e. \<not> comp_at store x e) opn) \<union>
        set (dropWhile (\<lambda>e. \<not> comp_at store x e) opn) = set opn"
    by (metis set_append takeWhile_dropWhile_id)
  then show ?thesis by (simp add: multiset_insert_def)
qed

lemma update_open_subset:
  "set (update_open store x opn) \<subseteq> insert x (set opn)"
  by (auto simp: update_open_never_replaces set_multiset_insert split: option.splits)

text \<open>
  The loop body for one neighbour appends one node to the store: the node as
  \<^verbatim>\<open>Node::Create\<close> returns it, but for the collision probability.
\<close>

lemma expand_neighbor_nodes:
  assumes "expand_neighbor P fuel stop next s neighbor = Some s'"
  shows "\<exists>p. nodes s' =
           nodes s @ [(snd (Node_Create P (nodes s) neighbor (Some next)
              (node_time (nodes s ! next) +
                 (if eigen_isApprox P neighbor (node_point (nodes s ! next)) double_1e_8 then kStayPutTime
                  else BestPossibleTime P (node_point (nodes s ! next)) neighbor))
              (ComputeCostToCome P (Some (nodes s ! next)) neighbor
                 (if eigen_isApprox P neighbor (node_point (nodes s ! next)) double_1e_8 then kStayPutTime
                  else BestPossibleTime P (node_point (nodes s ! next)) neighbor))
              (ComputeHeuristic P neighbor stop)) ! length (nodes s))
             \<lparr>node_collision_prob := p\<rparr>]"
    and "set (open_set s') \<subseteq> insert (length (nodes s)) (set (open_set s))"
    and "closed_set s' = closed_set s"
proof -
  let ?best = "if eigen_isApprox P neighbor (node_point (nodes s ! next)) double_1e_8 then kStayPutTime
               else BestPossibleTime P (node_point (nodes s ! next)) neighbor"
  let ?n = "\<lparr>node_point = neighbor, node_parent = Some next,
             node_time = node_time (nodes s ! next) + ?best,
             node_cost_to_come = ComputeCostToCome P (Some (nodes s ! next)) neighbor ?best,
             node_heuristic = ComputeHeuristic P neighbor stop,
             node_priority = xadd (ComputeCostToCome P (Some (nodes s ! next)) neighbor ?best)
               (Finite (ComputeHeuristic P neighbor stop)),
             node_collision_prob = initial_collision_prob P\<rparr>"
  obtain free mp asked where cc:
    "CollisionCheck P fuel (node_point (nodes s ! next)) neighbor (node_time (nodes s ! next))
       (node_time (nodes s ! next) + ?best) (initial_collision_prob P) = (free, mp, asked)"
    by (metis prod_cases3)
  let ?store' = "nodes s @ [?n\<lparr>node_collision_prob := mp\<rparr>]"
  have s': "s' = s\<lparr>nodes := nodes s @ [?n]\<rparr>
      \<or> s' = s\<lparr>nodes := ?store', queries := queries s @ asked\<rparr>
      \<or> s' = s\<lparr>nodes := ?store', queries := queries s @ asked,
               open_set := update_open ?store' (length (nodes s)) (open_set s)\<rparr>"
    using assms cc
    by (auto simp: expand_neighbor_def Node_Create_def Let_def
        split: if_splits option.splits bool.splits)
  have created: "snd (Node_Create P (nodes s) neighbor (Some next)
              (node_time (nodes s ! next) + ?best)
              (ComputeCostToCome P (Some (nodes s ! next)) neighbor ?best)
              (ComputeHeuristic P neighbor stop)) ! length (nodes s) = ?n"
    by (simp add: Node_Create_def)
  from s' show "\<exists>p. nodes s' =
           nodes s @ [(snd (Node_Create P (nodes s) neighbor (Some next)
              (node_time (nodes s ! next) + ?best)
              (ComputeCostToCome P (Some (nodes s ! next)) neighbor ?best)
              (ComputeHeuristic P neighbor stop)) ! length (nodes s))
             \<lparr>node_collision_prob := p\<rparr>]"
  proof (elim disjE)
    assume "s' = s\<lparr>nodes := nodes s @ [?n]\<rparr>"
    then have "nodes s' = nodes s @ [?n\<lparr>node_collision_prob := initial_collision_prob P\<rparr>]"
      by simp
    then show ?thesis unfolding created by blast
  next
    assume "s' = s\<lparr>nodes := ?store', queries := queries s @ asked\<rparr>"
    then have "nodes s' = nodes s @ [?n\<lparr>node_collision_prob := mp\<rparr>]" by simp
    then show ?thesis unfolding created by blast
  next
    assume "s' = s\<lparr>nodes := ?store', queries := queries s @ asked,
               open_set := update_open ?store' (length (nodes s)) (open_set s)\<rparr>"
    then have "nodes s' = nodes s @ [?n\<lparr>node_collision_prob := mp\<rparr>]" by simp
    then show ?thesis unfolding created by blast
  qed
  from s' show "set (open_set s') \<subseteq> insert (length (nodes s)) (set (open_set s))"
    using update_open_subset [of ?store' "length (nodes s)" "open_set s"] by auto
  from s' show "closed_set s' = closed_set s" by auto
qed









subsection \<open>Times along the parent chains\<close>

lemma time_ordered_iff:
  "time_ordered store =
     (\<forall>i<length store. \<forall>p. node_parent (store ! i) = Some p \<longrightarrow>
        p < i \<and> node_time (store ! p) \<le> node_time (store ! i))"
  by (auto simp: time_ordered_def list_all_iff split: option.splits)

lemma time_ordered_snoc:
  assumes "time_ordered store"
    and "\<forall>p. node_parent n = Some p \<longrightarrow> p < length store \<and> node_time (store ! p) \<le> node_time n"
  shows "time_ordered (store @ [n])"
  unfolding time_ordered_iff
proof (intro allI impI)
  fix i p
  assume i: "i < length (store @ [n])" and p: "node_parent ((store @ [n]) ! i) = Some p"
  show "p < i \<and> node_time ((store @ [n]) ! p) \<le> node_time ((store @ [n]) ! i)"
  proof (cases "i < length store")
    case True
    with p assms(1) have "p < i \<and> node_time (store ! p) \<le> node_time (store ! i)"
      by (simp add: time_ordered_iff nth_append)
    with True show ?thesis by (simp add: nth_append)
  next
    case False
    with i have "i = length store" by simp
    with p assms(2) show ?thesis by (simp add: nth_append)
  qed
qed

text \<open>
  What the loop of \<^verbatim>\<open>GenerateTrajectory\<close> collects are the positions and the times
  of the nodes of the parent chain, and the last node of the chain has no parent.
\<close>

lemma walk_back_chain:
  "walk_back fuel store a = Some (positions, times') \<Longrightarrow>
   positions = map (\<lambda>n. node_point (store ! n)) (parent_chain fuel store a)
   \<and> times' = map (\<lambda>n. node_time (store ! n)) (parent_chain fuel store a)
   \<and> (a \<noteq> None \<longrightarrow> parent_chain fuel store a \<noteq> []
        \<and> node_parent (store ! last (parent_chain fuel store a)) = None)"
proof (induction fuel arbitrary: a positions times')
  case 0
  then show ?case by (cases a) simp_all
next
  case (Suc fuel)
  show ?case
  proof (cases a)
    case None
    with Suc.prems show ?thesis by simp
  next
    case (Some n)
    with Suc.prems obtain ps ts where
      w: "walk_back fuel store (node_parent (store ! n)) = Some (ps, ts)"
      and eq: "positions = node_point (store ! n) # ps" "times' = node_time (store ! n) # ts"
      by (auto split: option.splits)
    from Suc.IH [OF w] Some eq show ?thesis
      by (cases "node_parent (store ! n)") auto
  qed
qed

text \<open>In an ordered store the times along a parent chain, read backwards, ascend.\<close>

lemma chain_sorted:
  "time_ordered store \<Longrightarrow> a < length store \<Longrightarrow>
   sorted (rev (map (\<lambda>n. node_time (store ! n)) (parent_chain fuel store (Some a))))
   \<and> (\<forall>n \<in> set (parent_chain fuel store (Some a)).
         n < length store \<and> node_time (store ! n) \<le> node_time (store ! a))"
proof (induction fuel arbitrary: a)
  case 0
  then show ?case by simp
next
  case (Suc fuel)
  show ?case
  proof (cases "node_parent (store ! a)")
    case None
    with Suc.prems show ?thesis by simp
  next
    case (Some p)
    with Suc.prems have p: "p < a" "node_time (store ! p) \<le> node_time (store ! a)"
      by (auto simp: time_ordered_iff)
    with Suc.prems have "p < length store" by simp
    from Suc.IH [OF Suc.prems(1) this] p Some Suc.prems(2) show ?thesis
      by (auto simp: sorted_append)
  qed
qed

text \<open>
  When the best possible time is never negative, the loop body for a neighbour, the loop
  over the neighbours and the goal branch keep the store ordered and the open set inside
  the store.
\<close>

lemma expand_neighbor_ordered:
  assumes e: "expand_neighbor P fuel stop a s neighbor = Some s'"
    and bpt: "\<forall>x y. 0 \<le> BestPossibleTime P x y"
    and ord: "time_ordered (nodes s)"
    and a: "a < length (nodes s)"
    and opn: "\<forall>b \<in> set (open_set s). b < length (nodes s)"
  shows "time_ordered (nodes s') \<and> a < length (nodes s')
         \<and> (\<forall>b \<in> set (open_set s'). b < length (nodes s'))"
proof -
  let ?best = "if eigen_isApprox P neighbor (node_point (nodes s ! a)) double_1e_8 then kStayPutTime
               else BestPossibleTime P (node_point (nodes s ! a)) neighbor"
  let ?n = "snd (Node_Create P (nodes s) neighbor (Some a) (node_time (nodes s ! a) + ?best)
              (ComputeCostToCome P (Some (nodes s ! a)) neighbor ?best)
              (ComputeHeuristic P neighbor stop)) ! length (nodes s)"
  from expand_neighbor_nodes(1) [OF e] obtain p where
    n: "nodes s' = nodes s @ [?n\<lparr>node_collision_prob := p\<rparr>]" by blast
  have best: "0 \<le> ?best" using bpt by (simp add: kStayPutTime_def del: split_paired_All)
  have "node_parent (?n\<lparr>node_collision_prob := p\<rparr>) = Some a"
    and "node_time (?n\<lparr>node_collision_prob := p\<rparr>) = node_time (nodes s ! a) + ?best"
    by (simp_all add: Node_Create_def)
  with best a have "\<forall>q. node_parent (?n\<lparr>node_collision_prob := p\<rparr>) = Some q \<longrightarrow>
      q < length (nodes s)
      \<and> node_time (nodes s ! q) \<le> node_time (?n\<lparr>node_collision_prob := p\<rparr>)"
    by simp
  from time_ordered_snoc [OF ord this] have "time_ordered (nodes s')" by (simp only: n)
  moreover from a n have "a < length (nodes s')" by simp
  moreover from expand_neighbor_nodes(2) [OF e] opn n
  have "\<forall>b \<in> set (open_set s'). b < length (nodes s')" by (auto simp: less_Suc_eq)
  ultimately show ?thesis by blast
qed

lemma expand_all_ordered:
  "expand_all P fuel stop a s neighbors = Some s' \<Longrightarrow>
   \<forall>x y. 0 \<le> BestPossibleTime P x y \<Longrightarrow> time_ordered (nodes s) \<Longrightarrow>
   a < length (nodes s) \<Longrightarrow> \<forall>b \<in> set (open_set s). b < length (nodes s) \<Longrightarrow>
   time_ordered (nodes s') \<and> (\<forall>b \<in> set (open_set s'). b < length (nodes s'))"
proof (induction neighbors arbitrary: s)
  case Nil
  then show ?case by simp
next
  case (Cons neighbor rest)
  then obtain s1 where s1: "expand_neighbor P fuel stop a s neighbor = Some s1"
    and rest: "expand_all P fuel stop a s1 rest = Some s'"
    by (auto split: option.splits)
  from expand_neighbor_ordered [OF s1 Cons.prems(2) Cons.prems(3) Cons.prems(4) Cons.prems(5)]
  have "time_ordered (nodes s1)" "a < length (nodes s1)"
    "\<forall>b \<in> set (open_set s1). b < length (nodes s1)" by blast+
  with Cons.IH [OF rest Cons.prems(2)] show ?case by blast
qed

lemma connect_goal_ordered:
  assumes ord: "time_ordered store" and a: "a < length store"
    and bpt: "\<forall>x y. 0 \<le> BestPossibleTime P x y"
    and c: "connect_goal P store a stop = (terminus, store')"
  shows "time_ordered store' \<and> terminus = length store' - 1 \<and> store' \<noteq> []
         \<and> node_point (store' ! terminus) = stop"
proof -
  let ?pn = "case node_parent (store ! a) of None \<Rightarrow> a | Some p \<Rightarrow> p"
  have pn: "?pn < length store"
    using ord a by (auto simp: time_ordered_iff split: option.splits)
  let ?n = "\<lparr>node_point = stop, node_parent = Some ?pn,
      node_time = node_time (store ! ?pn) + BestPossibleTime P (node_point (store ! ?pn)) stop,
      node_cost_to_come = ComputeCostToCome P (Some (store ! ?pn)) stop
        (BestPossibleTime P (node_point (store ! ?pn)) stop),
      node_heuristic = 0,
      node_priority = xadd (ComputeCostToCome P (Some (store ! ?pn)) stop
        (BestPossibleTime P (node_point (store ! ?pn)) stop)) (Finite 0),
      node_collision_prob = initial_collision_prob P\<rparr>"
  from c have t: "terminus = length store" and s': "store' = store @ [?n]"
    by (simp_all add: connect_goal_def Node_Create_def Let_def)
  have "\<forall>q. node_parent ?n = Some q \<longrightarrow>
      q < length store \<and> node_time (store ! q) \<le> node_time ?n"
    using pn bpt by (simp del: split_paired_All)
  from time_ordered_snoc [OF ord this] have "time_ordered store'" by (simp only: s')
  with t s' show ?thesis by simp
qed

text \<open>
  A trajectory that the main loop returns is the one generated from the last node of the
  final store, which lies at \<open>stop\<close>, and the final store is ordered.
\<close>

lemma plan_loop_found:
  "plan_loop P fuel stop budget plan_start_time n s = (Some (Inr t), s') \<Longrightarrow>
   \<forall>x y. 0 \<le> BestPossibleTime P x y \<Longrightarrow> time_ordered (nodes s) \<Longrightarrow>
   \<forall>b \<in> set (open_set s). b < length (nodes s) \<Longrightarrow>
   time_ordered (nodes s') \<and> nodes s' \<noteq> []
   \<and> GenerateTrajectory P fuel (nodes s') (length (nodes s') - 1) = Some t
   \<and> node_point (nodes s' ! (length (nodes s') - 1)) = stop"
proof (induction n arbitrary: s)
  case 0
  then show ?case by simp
next
  case (Suc n)
  note run = Suc.prems(1) and bpt = Suc.prems(2) and ord = Suc.prems(3) and opn = Suc.prems(4)
  show ?case
  proof (cases "now P (clock_reads s) - plan_start_time > budget")
    case True
    with run show ?thesis by simp
  next
    case budget: False
    show ?thesis
    proof (cases "open_set s")
      case Nil
      with budget run show ?thesis by simp
    next
      case (Cons a rest)
      with opn have a: "a < length (nodes s)" by simp
      show ?thesis
      proof (cases "is_goal P (node_point (nodes s ! a)) stop")
        case True
        obtain terminus store where c: "connect_goal P (nodes s) a stop = (terminus, store)"
          by (cases "connect_goal P (nodes s) a stop")
        with run budget Cons True
        have g: "GenerateTrajectory P fuel store terminus = Some t" and s': "nodes s' = store"
          by (auto simp: Let_def)
        from connect_goal_ordered [OF ord a bpt c] g s' show ?thesis by auto
      next
        case goal: False
        let ?s2 = "s\<lparr>clock_reads := Suc (clock_reads s), open_set := rest,
                     closed_set := a # closed_set s\<rparr>"
        show ?thesis
        proof (cases "Neighbors P fuel (node_point (nodes s ! a))")
          case None
          with budget Cons goal run show ?thesis by (simp add: Let_def)
        next
          case (Some neighbors)
          show ?thesis
          proof (cases "expand_all P fuel stop a ?s2 neighbors")
            case None
            with budget Cons goal Some run show ?thesis by (simp add: Let_def)
          next
            case s3: (Some s3)
            have "time_ordered (nodes ?s2)" "a < length (nodes ?s2)"
              "\<forall>b \<in> set (open_set ?s2). b < length (nodes ?s2)"
              using ord a opn Cons by simp_all
            from expand_all_ordered [OF s3 bpt this]
            have inv3: "time_ordered (nodes s3)" "\<forall>b \<in> set (open_set s3). b < length (nodes s3)"
              by blast+
            from budget Cons goal Some s3 run
            have "plan_loop P fuel stop budget plan_start_time n s3 = (Some (Inr t), s')"
              by (simp add: Let_def)
            from Suc.IH [OF this bpt inv3] show ?thesis .
          qed
        qed
      qed
    qed
  qed
qed


lemma initial_search_ordered:
  "time_ordered (nodes (initial_search P start stop start_time))
   \<and> (\<forall>b \<in> set (open_set (initial_search P start stop start_time)).
         b < length (nodes (initial_search P start stop start_time)))"
  by (simp add: initial_search_def Node_Create_def Let_def multiset_insert_def time_ordered_def)

text \<open>Whatever the main loop returns, it leaves the store ordered.\<close>

lemma plan_loop_ordered:
  "\<forall>x y. 0 \<le> BestPossibleTime P x y \<Longrightarrow> time_ordered (nodes s) \<Longrightarrow>
   \<forall>b \<in> set (open_set s). b < length (nodes s) \<Longrightarrow>
   time_ordered (nodes (snd (plan_loop P fuel stop budget plan_start_time n s)))"
proof (induction n arbitrary: s)
  case 0
  then show ?case by simp
next
  case (Suc n)
  note bpt = Suc.prems(1) and ord = Suc.prems(2) and opn = Suc.prems(3)
  show ?case
  proof (cases "now P (clock_reads s) - plan_start_time > budget")
    case True
    with ord show ?thesis by simp
  next
    case budget: False
    show ?thesis
    proof (cases "open_set s")
      case Nil
      with budget ord show ?thesis by simp
    next
      case (Cons a rest)
      with opn have a: "a < length (nodes s)" by simp
      show ?thesis
      proof (cases "is_goal P (node_point (nodes s ! a)) stop")
        case True
        obtain terminus store where c: "connect_goal P (nodes s) a stop = (terminus, store)"
          by (cases "connect_goal P (nodes s) a stop")
        from connect_goal_ordered [OF ord a bpt c] have "time_ordered store" by blast
        with budget Cons True c show ?thesis by (simp add: Let_def)
      next
        case goal: False
        let ?s2 = "s\<lparr>clock_reads := Suc (clock_reads s), open_set := rest,
                     closed_set := a # closed_set s\<rparr>"
        show ?thesis
        proof (cases "Neighbors P fuel (node_point (nodes s ! a))")
          case None
          with budget Cons goal ord show ?thesis by (simp add: Let_def)
        next
          case (Some neighbors)
          show ?thesis
          proof (cases "expand_all P fuel stop a ?s2 neighbors")
            case None
            with budget Cons goal Some ord show ?thesis by (simp add: Let_def)
          next
            case s3: (Some s3)
            have "time_ordered (nodes ?s2)" "a < length (nodes ?s2)"
              "\<forall>b \<in> set (open_set ?s2). b < length (nodes ?s2)"
              using ord a opn Cons by simp_all
            from expand_all_ordered [OF s3 bpt this]
            have inv3: "time_ordered (nodes s3)" "\<forall>b \<in> set (open_set s3). b < length (nodes s3)"
              by blast+
            from Suc.IH [OF bpt inv3] budget Cons goal Some s3 show ?thesis
              by (simp add: Let_def)
          qed
        qed
      qed
    qed
  qed
qed

text \<open>
  Claim C7. Let the best possible time between two points never be negative, as the
  interface of the dynamics says. For every trajectory that \<^verbatim>\<open>Plan\<close> returns, the
  times are the times of the nodes on the parent chain of the terminus, reversed, and
  the states are lifted from the positions of the same nodes, reversed in the same way:
  the two sequences have the same length and run from a node without parent to the
  terminus at \<open>stop\<close>. The times are sorted in non-decreasing order, and in the final
  store no parent is later in time than its child; the latter holds for the store of
  every call of \<^verbatim>\<open>Plan\<close>, whatever it returns.
\<close>

theorem Plan_times_nondecreasing:
  "((\<forall>a b. 0 \<le> BestPossibleTime P a b)
    \<and> Plan P fuel start stop start_time budget = (Some (Inr t), s) \<longrightarrow>
     (let terminus = length (nodes s) - 1;
          chain = parent_chain fuel (nodes s) (Some terminus);
          positions = rev (map (\<lambda>n. node_point (nodes s ! n)) chain)
      in traj_times t = rev (map (\<lambda>n. node_time (nodes s ! n)) chain)
         \<and> traj_states t = LiftGeometricTrajectory P positions (traj_times t)
         \<and> length positions = length (traj_times t)
         \<and> node_point (nodes s ! terminus) = stop
         \<and> node_parent (nodes s ! last chain) = None
         \<and> sorted (traj_times t)
         \<and> time_ordered (nodes s)))
   \<and> ((\<forall>a b. 0 \<le> BestPossibleTime P a b) \<longrightarrow>
        time_ordered (nodes (snd (Plan P fuel start stop start_time budget))))"
proof (intro conjI impI)
  assume h: "(\<forall>a b. 0 \<le> BestPossibleTime P a b)
   \<and> Plan P fuel start stop start_time budget = (Some (Inr t), s)"
  then have bpt: "\<forall>a b. 0 \<le> BestPossibleTime P a b"
    and run: "plan_loop P fuel stop budget (now P 0) fuel (initial_search P start stop start_time)
              = (Some (Inr t), s)"
    by (simp_all add: Plan_def)
  let ?store = "nodes s"
  let ?terminus = "length ?store - 1"
  let ?chain = "parent_chain fuel ?store (Some ?terminus)"
  from plan_loop_found [OF run bpt] initial_search_ordered [of P start stop start_time]
  have ord: "time_ordered ?store" and ne: "?store \<noteq> []"
    and g: "GenerateTrajectory P fuel ?store ?terminus = Some t"
    and stop: "node_point (?store ! ?terminus) = stop"
    by blast+
  from g obtain positions times' where
    w: "walk_back fuel ?store (Some ?terminus) = Some (positions, times')"
    and t: "t = \<lparr>traj_times = rev times',
                 traj_states = LiftGeometricTrajectory P (rev positions) (rev times'),
                 traj_incoming_values =
                   replicate (length (LiftGeometricTrajectory P (rev positions) (rev times')))
                     (incoming_value P),
                 traj_outgoing_values =
                   replicate (length (LiftGeometricTrajectory P (rev positions) (rev times')))
                     (incoming_value P)\<rparr>"
    by (auto simp: GenerateTrajectory_def waypoints_def Let_def split: option.splits)
  from walk_back_chain [OF w]
  have ps: "positions = map (\<lambda>n. node_point (?store ! n)) ?chain"
    and ts: "times' = map (\<lambda>n. node_time (?store ! n)) ?chain"
    and root: "node_parent (?store ! last ?chain) = None"
    by simp_all
  from ne have "?terminus < length ?store" by simp
  from chain_sorted [OF ord this, of fuel]
  have sorted: "sorted (rev (map (\<lambda>n. node_time (?store ! n)) ?chain))" by blast
  show "let terminus = length (nodes s) - 1;
          chain = parent_chain fuel (nodes s) (Some terminus);
          positions = rev (map (\<lambda>n. node_point (nodes s ! n)) chain)
      in traj_times t = rev (map (\<lambda>n. node_time (nodes s ! n)) chain)
         \<and> traj_states t = LiftGeometricTrajectory P positions (traj_times t)
         \<and> length positions = length (traj_times t)
         \<and> node_point (nodes s ! terminus) = stop
         \<and> node_parent (nodes s ! last chain) = None
         \<and> sorted (traj_times t)
         \<and> time_ordered (nodes s)"
    unfolding Let_def using t ps ts root sorted stop ord by simp
next
  assume bpt: "\<forall>a b. 0 \<le> BestPossibleTime P a b"
  from plan_loop_ordered [OF bpt] initial_search_ordered [of P start stop start_time]
  show "time_ordered (nodes (snd (Plan P fuel start stop start_time budget)))"
    by (simp add: Plan_def)
qed

lemma example_plan:
  "Plan example_planner 2 (0, 0, 0) (0, 0, 0) 0 5 =
     (Some (Inr \<lparr>traj_times = [0, 2], traj_states = [[0, 0, 0], [0, 0, 0]],
                  traj_incoming_values = [0, 0], traj_outgoing_values = [0, 0]\<rparr>),
      \<lparr>nodes =
         [\<lparr>node_point = (0, 0, 0), node_parent = None, node_time = 0,
           node_cost_to_come = Finite 0, node_heuristic = 2, node_priority = Finite 2,
           node_collision_prob = 0\<rparr>,
          \<lparr>node_point = (0, 0, 0), node_parent = Some 0, node_time = 2,
           node_cost_to_come = Finite 0, node_heuristic = 0, node_priority = Finite 0,
           node_collision_prob = 0\<rparr>],
       open_set = [], closed_set = [], queries = [], clock_reads = 2\<rparr>)"
  by (simp add: Plan_def initial_search_def Node_Create_def multiset_insert_def Let_def
      connect_goal_def GenerateTrajectory_def waypoints_def is_goal_def example_defs
      numeral_2_eq_2 ComputeHeuristic_def ComputeCostToCome_def vector_defs)

theorem Plan_times_nondecreasing_witness:
  "(\<forall>a b. 0 \<le> BestPossibleTime example_planner a b)
   \<and> Plan example_planner 2 (0, 0, 0) (0, 0, 0) 0 5 =
     (Some (Inr \<lparr>traj_times = [0, 2], traj_states = [[0, 0, 0], [0, 0, 0]],
                  traj_incoming_values = [0, 0], traj_outgoing_values = [0, 0]\<rparr>),
      \<lparr>nodes =
         [\<lparr>node_point = (0, 0, 0), node_parent = None, node_time = 0,
           node_cost_to_come = Finite 0, node_heuristic = 2, node_priority = Finite 2,
           node_collision_prob = 0\<rparr>,
          \<lparr>node_point = (0, 0, 0), node_parent = Some 0, node_time = 2,
           node_cost_to_come = Finite 0, node_heuristic = 0, node_priority = Finite 0,
           node_collision_prob = 0\<rparr>],
       open_set = [], closed_set = [], queries = [], clock_reads = 2\<rparr>)
   \<and> sorted [0, 2 :: real]
   \<and> time_ordered
        [\<lparr>node_point = (0, 0, 0), node_parent = None, node_time = 0,
          node_cost_to_come = Finite 0, node_heuristic = 2, node_priority = Finite 2,
          node_collision_prob = 0\<rparr>,
         \<lparr>node_point = (0, 0, 0), node_parent = Some 0, node_time = 2,
          node_cost_to_come = Finite 0, node_heuristic = 0, node_priority = Finite 0,
          node_collision_prob = 0\<rparr>]"
proof -
  have bpt: "\<forall>a b. 0 \<le> BestPossibleTime example_planner a b"
    by (simp add: example_defs)
  obtain t s where run: "Plan example_planner 2 (0, 0, 0) (0, 0, 0) 0 5 = (Some (Inr t), s)"
    and t: "traj_times t = [0, 2]"
    and s: "nodes s =
         [\<lparr>node_point = (0, 0, 0), node_parent = None, node_time = 0,
           node_cost_to_come = Finite 0, node_heuristic = 2, node_priority = Finite 2,
           node_collision_prob = 0\<rparr>,
          \<lparr>node_point = (0, 0, 0), node_parent = Some 0, node_time = 2,
           node_cost_to_come = Finite 0, node_heuristic = 0, node_priority = Finite 0,
           node_collision_prob = 0\<rparr>]"
    using example_plan by simp
  from Plan_times_nondecreasing [THEN conjunct1, rule_format, OF conjI [OF bpt run]]
  have "sorted (traj_times t)" and "time_ordered (nodes s)"
    unfolding Let_def by blast+
  then show ?thesis using bpt by (simp add: example_plan t s)
qed

subsection \<open>The goal branch of the A* search\<close>





end
